theory Spec2Isabelle
  imports Complex_Main "HOL-Library.Char_ord" "HOL-Library.List_Lexorder"
    "HOL-Library.Product_Lexorder" "HOL-Library.AList" "HOL-Library.Sublist"
begin

chapter \<open>The bookstore: JSON store, book repository, inventory and sales services\<close>

text \<open>
  A shallow embedding of the Python package \<^verbatim>\<open>bookstore\<close>: the models
  (\<^verbatim>\<open>models/book.py\<close>, \<^verbatim>\<open>models/sale.py\<close>), the store
  (\<^verbatim>\<open>storage/json_store.py\<close>), the repository
  (\<^verbatim>\<open>repository/book_repository.py\<close>) and the two services
  (\<^verbatim>\<open>services/inventory_service.py\<close>, \<^verbatim>\<open>services/sales_service.py\<close>).

  Every function that can raise returns a sum: \<open>Inl\<close> the exception, \<open>Inr\<close> the value.
  Every function that reads or writes the backing file takes the file and returns it,
  also when it raises, so that what a failed call leaves behind is part of its result.

  What the model fixes about the Python it runs on:
  \<^item> strings are lists of 8-bit characters read as ASCII; \<open>strip\<close>, \<open>lower\<close> and
    \<open>upper\<close> are Python's on ASCII and leave every other character alone;
  \<^item> JSON numbers are integers (a document with a float is outside the model);
  \<^item> an object is an association list read with \<open>map_of\<close>; a parsed object has
    distinct keys;
  \<^item> datetimes are naive (no time zone), and \<open>fromisoformat\<close> reads exactly what
    \<open>isoformat\<close> writes (interpreters read further ISO 8601 spellings, which differ
    between versions);
  \<^item> decimals are their numeric values in the default context (28 significant digits,
    rounding half to even); the exponent limits of the context are not modelled;
  \<^item> \<open>uuid.uuid4()\<close> and \<open>datetime.now()\<close> are read from an oracle that the
    caller passes, one value for every call site;
  \<^item> writing the file never fails (no I/O error).
\<close>

section \<open>Python values\<close>

subsection \<open>Strings\<close>

definition isspace :: "char \<Rightarrow> bool" where
  \<comment> \<open>\<open>str.isspace\<close> and the regular expression class \<open>\s\<close> on ASCII:
      TAB, LF, VT, FF, CR, FS, GS, RS, US and the space.\<close>
  "isspace c = (let n = (of_char c :: nat) in (9 \<le> n \<and> n \<le> 13) \<or> (28 \<le> n \<and> n \<le> 32))"

definition strip :: "string \<Rightarrow> string" where
  "strip s = rev (dropWhile isspace (rev (dropWhile isspace s)))"

definition lower_char :: "char \<Rightarrow> char" where
  "lower_char c = (let n = (of_char c :: nat) in if 65 \<le> n \<and> n \<le> 90 then char_of (n + 32) else c)"

definition upper_char :: "char \<Rightarrow> char" where
  "upper_char c = (let n = (of_char c :: nat) in if 97 \<le> n \<and> n \<le> 122 then char_of (n - 32) else c)"

definition lower :: "string \<Rightarrow> string" where
  "lower s = map lower_char s"

definition upper :: "string \<Rightarrow> string" where
  "upper s = map upper_char s"

fun contains :: "string \<Rightarrow> string \<Rightarrow> bool" where
  \<comment> \<open>\<open>contains s q\<close> is Python's \<open>q in s\<close> on strings.\<close>
  "contains [] q = (q = [])"
| "contains (c # cs) q = (prefix q (c # cs) \<or> contains cs q)"

definition is_digit :: "char \<Rightarrow> bool" where
  "is_digit c = (let n = (of_char c :: nat) in 48 \<le> n \<and> n \<le> 57)"

definition digit_val :: "char \<Rightarrow> nat" where
  "digit_val c = of_char c - 48"

definition digit_char :: "nat \<Rightarrow> char" where
  "digit_char n = char_of (48 + n)"

subsection \<open>JSON values and exceptions\<close>

datatype json = JNull | JBool bool | JInt int | JStr string | JList "json list"
  | JObj "(string \<times> json) list"

datatype pyerr =
    ValidationError string
  | BookNotFoundError "json option" "string option"
  | DuplicateISBNError string
  | OutOfStockError string int int
  | StorageError
  | KeyError string
  | TypeError
  | ValueError
  | InvalidOperation
  | NameError string

text \<open>
  \<open>ValidationError\<close> carries its field; \<open>BookNotFoundError\<close> the \<open>book_id\<close> or the
  \<open>isbn\<close> it was raised with; \<open>OutOfStockError\<close> the ISBN, the requested and the
  available quantity; \<open>KeyError\<close> the missing key. \<open>InvalidOperation\<close> is
  \<open>decimal.InvalidOperation\<close>, and \<open>NameError\<close> carries the unbound name.
\<close>

fun is_ValidationError :: "pyerr \<Rightarrow> bool" where
  "is_ValidationError (ValidationError field) = True"
| "is_ValidationError e = False"

fun is_BookNotFoundError :: "pyerr \<Rightarrow> bool" where
  "is_BookNotFoundError (BookNotFoundError i n) = True"
| "is_BookNotFoundError e = False"

definition bind :: "pyerr + 'a \<Rightarrow> ('a \<Rightarrow> pyerr + 'b) \<Rightarrow> pyerr + 'b" where
  \<comment> \<open>Sequencing: the first exception ends the computation.\<close>
  "bind m f = (case m of Inl e \<Rightarrow> Inl e | Inr a \<Rightarrow> f a)"

fun truthy :: "json \<Rightarrow> bool" where
  "truthy JNull = False"
| "truthy (JBool b) = b"
| "truthy (JInt n) = (n \<noteq> 0)"
| "truthy (JStr s) = (s \<noteq> [])"
| "truthy (JList xs) = (xs \<noteq> [])"
| "truthy (JObj kvs) = (kvs \<noteq> [])"

fun py_eq :: "json \<Rightarrow> json \<Rightarrow> bool" where
  \<comment> \<open>Python's \<open>==\<close> on parsed JSON: \<open>True == 1\<close>, \<open>False == 0\<close>, lists by position,
      objects (with distinct keys) by key.\<close>
  "py_eq JNull JNull = True"
| "py_eq (JBool a) (JBool b) = (a = b)"
| "py_eq (JBool a) (JInt n) = (n = (if a then 1 else 0))"
| "py_eq (JInt n) (JBool a) = (n = (if a then 1 else 0))"
| "py_eq (JInt m) (JInt n) = (m = n)"
| "py_eq (JStr s) (JStr t) = (s = t)"
| "py_eq (JList xs) (JList ys) = list_all2 py_eq xs ys"
| "py_eq (JObj kvs) (JObj kvs') = (length kvs = length kvs' \<and>
     list_all (\<lambda>(k, v). case map_of kvs' k of Some v' \<Rightarrow> py_eq v v' | None \<Rightarrow> False) kvs)"
| "py_eq a b = False"

subsection \<open>\<open>int(x)\<close>\<close>

definition is_c_space :: "char \<Rightarrow> bool" where
  \<comment> \<open>The white space \<open>int\<close> skips around an ASCII literal: TAB, LF, VT, FF, CR, space.\<close>
  "is_c_space c = (let n = (of_char c :: nat) in (9 \<le> n \<and> n \<le> 13) \<or> n = 32)"

fun digits_value :: "nat \<Rightarrow> string \<Rightarrow> nat option" where
  \<comment> \<open>The digits after a digit: a single underscore may stand between two digits.\<close>
  "digits_value acc [] = Some acc"
| "digits_value acc (c # cs) =
     (if is_digit c then digits_value (10 * acc + digit_val c) cs
      else if c = CHR ''_'' then
        (case cs of
           [] \<Rightarrow> None
         | d # ds \<Rightarrow> if is_digit d then digits_value (10 * acc + digit_val d) ds else None)
      else None)"

definition unsigned_literal :: "string \<Rightarrow> nat option" where
  "unsigned_literal s =
     (case s of [] \<Rightarrow> None
      | c # cs \<Rightarrow> if is_digit c then digits_value (digit_val c) cs else None)"

definition int_of_str :: "string \<Rightarrow> int option" where
  "int_of_str s =
     (case rev (dropWhile is_c_space (rev (dropWhile is_c_space s))) of
        [] \<Rightarrow> None
      | c # cs \<Rightarrow>
          if c = CHR ''-'' then map_option (\<lambda>n. - int n) (unsigned_literal cs)
          else if c = CHR ''+'' then map_option int (unsigned_literal cs)
          else map_option int (unsigned_literal (c # cs)))"

fun py_int :: "json \<Rightarrow> pyerr + int" where
  "py_int (JInt n) = Inr n"
| "py_int (JBool b) = Inr (if b then 1 else 0)"
| "py_int (JStr s) = (case int_of_str s of None \<Rightarrow> Inl ValueError | Some n \<Rightarrow> Inr n)"
| "py_int v = Inl TypeError"

subsection \<open>\<open>datetime\<close>\<close>

type_synonym datetime = "nat \<times> nat \<times> nat \<times> nat \<times> nat \<times> nat \<times> nat"

text \<open>
  Year, month, day, hour, minute, second, microsecond. The order of the tuples
  (lexicographic) is the order of naive datetimes.
\<close>

definition is_leap :: "nat \<Rightarrow> bool" where
  "is_leap y = (y mod 4 = 0 \<and> (y mod 100 \<noteq> 0 \<or> y mod 400 = 0))"

definition days_in_month :: "nat \<Rightarrow> nat \<Rightarrow> nat" where
  "days_in_month y m =
     (if m = 2 then (if is_leap y then 29 else 28)
      else if m = 4 \<or> m = 6 \<or> m = 9 \<or> m = 11 then 30 else 31)"

fun valid_datetime :: "datetime \<Rightarrow> bool" where
  "valid_datetime (y, mo, d, h, mi, s, us) =
     (1 \<le> y \<and> y \<le> 9999 \<and> 1 \<le> mo \<and> mo \<le> 12 \<and> 1 \<le> d \<and> d \<le> days_in_month y mo
      \<and> h < 24 \<and> mi < 60 \<and> s < 60 \<and> us < 1000000)"

fun zfill :: "nat \<Rightarrow> nat \<Rightarrow> string" where
  \<comment> \<open>\<open>zfill w n\<close>: the last \<open>w\<close> decimal digits of \<open>n\<close> (the format \<open>%0wd\<close> for \<open>n < 10 ^ w\<close>).\<close>
  "zfill 0 n = []"
| "zfill (Suc w) n = zfill w (n div 10) @ [digit_char (n mod 10)]"

fun isoformat :: "datetime \<Rightarrow> string" where
  "isoformat (y, mo, d, h, mi, s, us) =
     zfill 4 y @ ''-'' @ zfill 2 mo @ ''-'' @ zfill 2 d @ ''T'' @
     zfill 2 h @ '':'' @ zfill 2 mi @ '':'' @ zfill 2 s @
     (if us = 0 then [] else ''.'' @ zfill 6 us)"

definition digits_nat :: "string \<Rightarrow> nat option" where
  "digits_nat s =
     (if s \<noteq> [] \<and> list_all is_digit s
      then Some (foldl (\<lambda>a c. 10 * a + digit_val c) 0 s) else None)"

definition fromisoformat :: "string \<Rightarrow> pyerr + datetime" where
  "fromisoformat s =
     (if (length s = 19 \<or> (length s = 26 \<and> s ! 19 = CHR ''.''))
         \<and> s ! 4 = CHR ''-'' \<and> s ! 7 = CHR ''-'' \<and> s ! 10 = CHR ''T''
         \<and> s ! 13 = CHR '':'' \<and> s ! 16 = CHR '':''
      then
        (case (digits_nat (take 4 s), digits_nat (take 2 (drop 5 s)),
               digits_nat (take 2 (drop 8 s)), digits_nat (take 2 (drop 11 s)),
               digits_nat (take 2 (drop 14 s)), digits_nat (take 2 (drop 17 s)),
               if length s = 19 then Some 0 else digits_nat (drop 20 s)) of
           (Some y, Some mo, Some d, Some h, Some mi, Some sec, Some us) \<Rightarrow>
             if valid_datetime (y, mo, d, h, mi, sec, us)
             then Inr (y, mo, d, h, mi, sec, us) else Inl ValueError
         | other \<Rightarrow> Inl ValueError)
      else Inl ValueError)"

subsection \<open>\<open>decimal.Decimal\<close>\<close>

datatype decimal = NaN | Infinity bool | Finite rat

text \<open>\<open>Infinity True\<close> is \<open>-Infinity\<close>. A finite decimal is its value.\<close>

definition round_half_even :: "rat \<Rightarrow> int" where
  "round_half_even q =
     (let f = \<lfloor>q\<rfloor>; r = q - of_int f in
      if r < 1 / 2 then f else if 1 / 2 < r then f + 1 else if even f then f else f + 1)"

fun ndigits :: "nat \<Rightarrow> nat" where
  "ndigits n = (if n < 10 then 1 else Suc (ndigits (n div 10)))"

declare ndigits.simps [simp del]

definition pow10 :: "int \<Rightarrow> rat" where
  "pow10 k = (if 0 \<le> k then 10 ^ nat k else 1 / 10 ^ nat (- k))"

definition adjusted :: "rat \<Rightarrow> int" where
  \<comment> \<open>For \<open>q > 0\<close>: the exponent of the leading digit, \<open>10 ^ e \<le> q < 10 ^ (e + 1)\<close>.\<close>
  "adjusted q =
     (let a = fst (quotient_of q); b = snd (quotient_of q);
          d = int (ndigits (nat a)) - int (ndigits (nat b))
      in if pow10 d \<le> q then d else d - 1)"

definition round_prec :: "rat \<Rightarrow> rat" where
  \<comment> \<open>The context's rounding of an exact result: 28 significant digits, half to even.\<close>
  "round_prec q =
     (if q = 0 then 0
      else (let k = 27 - adjusted \<bar>q\<bar> in of_int (round_half_even (q * pow10 k)) * pow10 (- k)))"

definition price_of_cents :: "int \<Rightarrow> decimal" where
  \<comment> \<open>\<open>Decimal(n) / Decimal(100)\<close>.\<close>
  "price_of_cents n = Finite (round_prec (of_int n / 100))"

section \<open>Dictionaries\<close>

definition getitem :: "(string \<times> json) list \<Rightarrow> string \<Rightarrow> pyerr + json" where
  \<comment> \<open>\<open>data[key]\<close>\<close>
  "getitem d k = (case map_of d k of None \<Rightarrow> Inl (KeyError k) | Some v \<Rightarrow> Inr v)"

definition get_default :: "(string \<times> json) list \<Rightarrow> string \<Rightarrow> json \<Rightarrow> json" where
  \<comment> \<open>\<open>data.get(key, default)\<close>; \<open>data.get(key)\<close> is \<open>get_default data key JNull\<close>.\<close>
  "get_default d k dflt = (case map_of d k of None \<Rightarrow> dflt | Some v \<Rightarrow> v)"

fun setitem :: "json \<Rightarrow> string \<Rightarrow> json \<Rightarrow> json" where
  \<comment> \<open>\<open>data[key] = v\<close> on an object.\<close>
  "setitem (JObj d) k v = JObj (AList.update k v d)"
| "setitem data k v = data"

fun get_list :: "json \<Rightarrow> string \<Rightarrow> json list" where
  \<comment> \<open>\<open>data.get(key, [])\<close> on a loaded document, whose two fields are lists.\<close>
  "get_list (JObj d) k = (case map_of d k of Some (JList xs) \<Rightarrow> xs | other \<Rightarrow> [])"
| "get_list data k = []"

section \<open>\<open>models/book.py\<close>\<close>

record book =
  ident :: json
  created_at :: datetime
  title :: string
  author :: string
  isbn :: string
  currency :: string
  price_cents :: int
  quantity :: int
  archived :: bool

text \<open>
  The attribute \<open>id\<close> is the field \<open>ident\<close>, and \<open>_price_cents\<close> is \<open>price_cents\<close>.
  \<open>id\<close> holds whatever \<open>data.get("id")\<close> gave when that is truthy, so it is a JSON
  value; the other attributes have passed the constructor's checks.
\<close>

definition isbn_shape :: "string \<Rightarrow> bool" where
  "isbn_shape s =
     ((length s = 10 \<and> list_all is_digit (take 9 s) \<and> (is_digit (s ! 9) \<or> s ! 9 = CHR ''X''))
      \<or> (length s = 13 \<and> list_all is_digit s))"

definition ISBN_RE_match :: "string \<Rightarrow> bool" where
  \<comment> \<open>\<open>re.match\<close> of \<open>^[0-9]{9}[0-9X]$|^[0-9]{13}$\<close>: \<open>$\<close> also matches before a
      line feed that ends the string.\<close>
  "ISBN_RE_match s =
     (isbn_shape s \<or> (s \<noteq> [] \<and> last s = CHR 0x0A \<and> isbn_shape (butlast s)))"

fun validate_non_empty :: "string \<Rightarrow> json \<Rightarrow> pyerr + string" where
  "validate_non_empty field (JStr s) =
     (if strip s = [] then Inl (ValidationError field) else Inr (strip s))"
| "validate_non_empty field v = Inl (ValidationError field)"

definition validate_non_negative_int :: "string \<Rightarrow> int \<Rightarrow> pyerr + int" where
  "validate_non_negative_int field n = (if n < 0 then Inl (ValidationError field) else Inr n)"

definition validate_positive_int :: "string \<Rightarrow> int \<Rightarrow> pyerr + int" where
  "validate_positive_int field n = (if n \<le> 0 then Inl (ValidationError field) else Inr n)"

fun validate_currency :: "json \<Rightarrow> pyerr + string" where
  "validate_currency (JStr s) =
     (if strip s = [] then Inl (ValidationError ''currency'') else Inr (upper (strip s)))"
| "validate_currency v = Inl (ValidationError ''currency'')"

fun Book_normalize_isbn :: "json \<Rightarrow> pyerr + string" where
  "Book_normalize_isbn (JStr raw) =
     Inr (upper (filter (\<lambda>c. c \<noteq> CHR ''-'' \<and> c \<noteq> CHR '' '') raw))"
| "Book_normalize_isbn v = Inl (ValidationError ''isbn'')"

definition to_cents :: "decimal option \<Rightarrow> pyerr + int" where
  \<comment> \<open>The argument is what \<open>Decimal(str(amount))\<close> gives, \<open>None\<close> when that raises.
      \<open>dec < 0\<close> raises on a NaN; \<open>quantize\<close> raises on an infinity and on a result
      of more than 28 digits, outside the \<open>try\<close>.\<close>
  "to_cents amount =
     (case amount of
        None \<Rightarrow> Inl (ValidationError ''price'')
      | Some NaN \<Rightarrow> Inl InvalidOperation
      | Some (Infinity negative) \<Rightarrow>
          if negative then Inl (ValidationError ''price'') else Inl InvalidOperation
      | Some (Finite dec) \<Rightarrow>
          if dec < 0 then Inl (ValidationError ''price'')
          else (let v = round_prec (dec * 100) in
                if 10 ^ 28 \<le> v then Inl InvalidOperation
                else (let cents = round_half_even v in
                      if 10 ^ 28 \<le> cents then Inl InvalidOperation else Inr cents)))"

definition Book_init ::
  "string \<times> datetime \<Rightarrow> json \<Rightarrow> json \<Rightarrow> json \<Rightarrow> decimal option \<Rightarrow> json \<Rightarrow> int \<Rightarrow> json \<Rightarrow> bool
     \<Rightarrow> datetime option \<Rightarrow> pyerr + book" where
  \<comment> \<open>\<open>Book(title, author, isbn, price, currency, quantity, book_id=, archived=,
      created_at=)\<close>; the first argument is what \<open>uuid4()\<close> and \<open>now()\<close> would give.\<close>
  "Book_init env title' author' isbn' price currency' quantity' book_id archived' created =
     (let id' = (if truthy book_id then book_id else JStr (fst env));
          created' = (case created of Some t \<Rightarrow> t | None \<Rightarrow> snd env)
      in bind (validate_non_empty ''title'' title') (\<lambda>t.
         bind (validate_non_empty ''author'' author') (\<lambda>a.
         bind (Book_normalize_isbn isbn') (\<lambda>i.
         if \<not> ISBN_RE_match i then Inl (ValidationError ''isbn'')
         else bind (validate_currency currency') (\<lambda>c.
              bind (to_cents price) (\<lambda>p.
              bind (validate_non_negative_int ''quantity'' quantity') (\<lambda>q.
              Inr \<lparr>ident = id', created_at = created', title = t, author = a, isbn = i,
                   currency = c, price_cents = p, quantity = q, archived = archived'\<rparr>)))))))"

definition set_price :: "book \<Rightarrow> decimal option \<Rightarrow> pyerr + book" where
  \<comment> \<open>The setter of the property \<open>price\<close>.\<close>
  "set_price b amount = bind (to_cents amount) (\<lambda>p. Inr (b\<lparr>price_cents := p\<rparr>))"

definition increase_stock :: "book \<Rightarrow> int \<Rightarrow> pyerr + book" where
  "increase_stock b n =
     bind (validate_positive_int ''n'' n) (\<lambda>inc. Inr (b\<lparr>quantity := quantity b + inc\<rparr>))"

definition decrease_stock :: "book \<Rightarrow> int \<Rightarrow> pyerr + book" where
  "decrease_stock b n =
     bind (validate_positive_int ''n'' n) (\<lambda>dec.
       if dec > quantity b then Inl (ValidationError ''quantity'')
       else Inr (b\<lparr>quantity := quantity b - dec\<rparr>))"

definition mark_archived :: "book \<Rightarrow> book" where
  "mark_archived b = b\<lparr>archived := True\<rparr>"

definition to_dict :: "book \<Rightarrow> json" where
  "to_dict b = JObj
     [(''id'', ident b), (''title'', JStr (title b)), (''author'', JStr (author b)),
      (''isbn'', JStr (isbn b)), (''price_cents'', JInt (price_cents b)),
      (''currency'', JStr (currency b)), (''quantity'', JInt (quantity b)),
      (''archived'', JBool (archived b)), (''created_at'', JStr (isoformat (created_at b)))]"

fun parse_timestamp :: "json \<Rightarrow> pyerr + datetime" where
  \<comment> \<open>\<open>datetime.fromisoformat(v)\<close>: a \<open>TypeError\<close> unless \<open>v\<close> is a string.\<close>
  "parse_timestamp (JStr s) = fromisoformat s"
| "parse_timestamp v = Inl TypeError"

fun from_dict :: "string \<times> datetime \<Rightarrow> json \<Rightarrow> pyerr + book" where
  "from_dict env (JObj data) =
     bind (case map_of data ''created_at'' of
             None \<Rightarrow> Inr None
           | Some v \<Rightarrow> bind (parse_timestamp v) (\<lambda>t. Inr (Some t))) (\<lambda>created.
     bind (getitem data ''price_cents'') (\<lambda>pc.
     bind (py_int pc) (\<lambda>n.
     bind (getitem data ''title'') (\<lambda>title'.
     bind (getitem data ''author'') (\<lambda>author'.
     bind (getitem data ''isbn'') (\<lambda>isbn'.
     bind (py_int (get_default data ''quantity'' (JInt 0))) (\<lambda>quantity'.
     Book_init env title' author' isbn' (Some (price_of_cents n))
       (get_default data ''currency'' (JStr ''USD'')) quantity'
       (get_default data ''id'' JNull)
       (truthy (get_default data ''archived'' (JBool False))) created)))))))"
| "from_dict env data = Inl TypeError"

text \<open>
  An item that is not an object fails at \<open>"created_at" in data\<close> or at the first
  subscript with a \<open>TypeError\<close>, whatever it holds.
\<close>

section \<open>\<open>models/sale.py\<close>\<close>

record sale =
  sale_id :: json
  book_id :: json
  sale_isbn :: json
  qty :: int
  unit_price_cents :: int
  sale_currency :: json
  timestamp :: datetime

text \<open>
  The attributes \<open>isbn\<close> and \<open>currency\<close> are the fields \<open>sale_isbn\<close> and
  \<open>sale_currency\<close>. \<open>Sale.from_dict\<close> checks nothing, so \<open>sale_id\<close>, \<open>book_id\<close>,
  \<open>isbn\<close> and \<open>currency\<close> hold the JSON values of the record.
\<close>

fun Sale_normalize_isbn :: "json \<Rightarrow> pyerr + string" where
  "Sale_normalize_isbn (JStr raw) =
     (let cleaned = upper (filter (\<lambda>c. c \<noteq> CHR ''-'' \<and> \<not> isspace c) raw) in
      if \<not> ISBN_RE_match cleaned then Inl (ValidationError ''isbn'') else Inr cleaned)"
| "Sale_normalize_isbn v = Inl (ValidationError ''isbn'')"

definition Sale_create ::
  "string \<times> datetime \<Rightarrow> json \<Rightarrow> json \<Rightarrow> int \<Rightarrow> int \<Rightarrow> json \<Rightarrow> pyerr + sale" where
  \<comment> \<open>\<open>Sale.create(book_id=, isbn=, qty=, unit_price_cents=, currency=)\<close> with no
      \<open>timestamp\<close>; the first argument is what \<open>uuid4()\<close> and \<open>now()\<close> give.\<close>
  "Sale_create env book_id' isbn' qty' unit_price_cents' currency' =
     bind (validate_non_empty ''book_id'' book_id') (\<lambda>stripped_id.
     bind (validate_positive_int ''qty'' qty') (\<lambda>q.
     bind (validate_non_negative_int ''unit_price_cents'' unit_price_cents') (\<lambda>p.
     bind (Sale_normalize_isbn isbn') (\<lambda>norm_isbn.
     bind (validate_currency currency') (\<lambda>norm_currency.
     Inr \<lparr>sale_id = JStr (fst env), book_id = JStr stripped_id, sale_isbn = JStr norm_isbn,
          qty = qty', unit_price_cents = unit_price_cents',
          sale_currency = JStr norm_currency, timestamp = snd env\<rparr>)))))"

definition total_cents :: "sale \<Rightarrow> int" where
  "total_cents s = unit_price_cents s * qty s"

definition Sale_to_dict :: "sale \<Rightarrow> json" where
  "Sale_to_dict s = JObj
     [(''sale_id'', sale_id s), (''book_id'', book_id s), (''isbn'', sale_isbn s),
      (''qty'', JInt (qty s)), (''unit_price_cents'', JInt (unit_price_cents s)),
      (''currency'', sale_currency s), (''timestamp'', JStr (isoformat (timestamp s)))]"

fun Sale_from_dict :: "json \<Rightarrow> pyerr + sale" where
  "Sale_from_dict (JObj data) =
     bind (getitem data ''timestamp'') (\<lambda>raw_ts.
     bind (parse_timestamp raw_ts) (\<lambda>ts.
     bind (getitem data ''sale_id'') (\<lambda>sid.
     bind (getitem data ''book_id'') (\<lambda>bid.
     bind (getitem data ''isbn'') (\<lambda>i.
     bind (getitem data ''qty'') (\<lambda>raw_qty.
     bind (py_int raw_qty) (\<lambda>q.
     bind (getitem data ''unit_price_cents'') (\<lambda>raw_price.
     bind (py_int raw_price) (\<lambda>p.
     Inr \<lparr>sale_id = sid, book_id = bid, sale_isbn = i, qty = q, unit_price_cents = p,
          sale_currency = get_default data ''currency'' (JStr ''USD''),
          timestamp = ts\<rparr>)))))))))"
| "Sale_from_dict data = Inl TypeError"

section \<open>\<open>storage/json_store.py\<close>\<close>

datatype store_file = Absent | Corrupt | Content json

text \<open>
  The backing file: not there, there with text that is not JSON, or there with a
  parsed value. (The constructor of \<open>JSONStore\<close> writes the default document when the
  file is absent.)
\<close>

definition default_data :: json where
  "default_data = JObj [(''books'', JList []), (''sales'', JList [])]"

fun is_list :: "json \<Rightarrow> bool" where
  "is_list (JList xs) = True"
| "is_list v = False"

fun validate_and_normalize :: "json \<Rightarrow> bool \<Rightarrow> pyerr + json" where
  "validate_and_normalize (JObj data) allow_missing =
     (let books = get_default data ''books'' JNull;
          sales = get_default data ''sales'' JNull
      in if books = JNull \<or> sales = JNull then
           (if allow_missing then
              (let books' = (if books = JNull then JList [] else books);
                   sales' = (if sales = JNull then JList [] else sales)
               in if \<not> is_list books' \<or> \<not> is_list sales' then Inl StorageError
                  else Inr (JObj [(''books'', books'), (''sales'', sales')]))
            else Inl StorageError)
         else if \<not> is_list books \<or> \<not> is_list sales then Inl StorageError
         else Inr (JObj [(''books'', books), (''sales'', sales)]))"
| "validate_and_normalize data allow_missing = Inl StorageError"

definition load :: "store_file \<Rightarrow> (pyerr + json) \<times> store_file" where
  "load f =
     (case f of
        Absent \<Rightarrow> (validate_and_normalize default_data True, Content default_data)
      | Corrupt \<Rightarrow> (Inl StorageError, Corrupt)
      | Content data \<Rightarrow> (validate_and_normalize data True, f))"

definition save :: "json \<Rightarrow> store_file \<Rightarrow> (pyerr + unit) \<times> store_file" where
  "save data f =
     (case validate_and_normalize data False of
        Inl e \<Rightarrow> (Inl e, f)
      | Inr data' \<Rightarrow> (Inr (), Content data'))"

section \<open>\<open>repository/book_repository.py\<close>\<close>

type_synonym env = "nat \<Rightarrow> string \<times> datetime"

text \<open>
  One load of the books decodes every record; the record at position \<open>i\<close> reads
  \<open>uuid4()\<close> and \<open>now()\<close> from \<open>env i\<close> (it needs them when it has no \<open>id\<close> or no
  \<open>created_at\<close>).
\<close>

fun decode_books :: "env \<Rightarrow> json list \<Rightarrow> pyerr + book list" where
  \<comment> \<open>The loop of \<open>_load_books\<close>: a \<open>ValidationError\<close> skips the record, any other
      exception leaves the loop and the method.\<close>
  "decode_books env [] = Inr []"
| "decode_books env (item # rest) =
     (case from_dict (env 0) item of
        Inl e \<Rightarrow> if is_ValidationError e then decode_books (env \<circ> Suc) rest else Inl e
      | Inr b \<Rightarrow> bind (decode_books (env \<circ> Suc) rest) (\<lambda>bs. Inr (b # bs)))"

definition load_books :: "env \<Rightarrow> store_file \<Rightarrow> (pyerr + book list) \<times> store_file" where
  "load_books env f =
     (case load f of
        (Inl e, f') \<Rightarrow> (Inl e, f')
      | (Inr data, f') \<Rightarrow> (decode_books env (get_list data ''books''), f'))"

definition save_books :: "book list \<Rightarrow> store_file \<Rightarrow> (pyerr + unit) \<times> store_file" where
  "save_books books f =
     (case load f of
        (Inl e, f') \<Rightarrow> (Inl e, f')
      | (Inr data, f') \<Rightarrow> save (setitem data ''books'' (JList (map to_dict books))) f')"

definition repo_normalize_isbn :: "string \<Rightarrow> string" where
  \<comment> \<open>\<open>BookRepository._normalize_isbn\<close> on a string.\<close>
  "repo_normalize_isbn raw = upper (filter (\<lambda>c. c \<noteq> CHR ''-'' \<and> c \<noteq> CHR '' '') raw)"

fun first_index :: "('a \<Rightarrow> bool) \<Rightarrow> 'a list \<Rightarrow> nat option" where
  "first_index P [] = None"
| "first_index P (x # xs) = (if P x then Some 0 else map_option Suc (first_index P xs))"

definition find_index_by_id :: "book list \<Rightarrow> json \<Rightarrow> nat option" where
  "find_index_by_id books book_id' = first_index (\<lambda>b. py_eq (ident b) book_id') books"

definition find_index_by_isbn :: "book list \<Rightarrow> string \<Rightarrow> nat option" where
  "find_index_by_isbn books isbn' = first_index (\<lambda>b. isbn b = isbn') books"

definition list_all_books :: "env \<Rightarrow> bool \<Rightarrow> store_file \<Rightarrow> (pyerr + book list) \<times> store_file" where
  \<comment> \<open>\<open>BookRepository.list_all\<close>\<close>
  "list_all_books env include_archived f =
     (case load_books env f of
        (Inl e, f') \<Rightarrow> (Inl e, f')
      | (Inr books, f') \<Rightarrow>
          (Inr (if include_archived then books else filter (\<lambda>b. \<not> archived b) books), f'))"

definition matches :: "string \<Rightarrow> book \<Rightarrow> bool" where
  "matches q b =
     (contains (lower (title b)) q \<or> contains (lower (author b)) q \<or> contains (lower (isbn b)) q)"

fun search_loop :: "string \<Rightarrow> int \<Rightarrow> book list \<Rightarrow> book list \<Rightarrow> book list" where
  \<comment> \<open>The loop of \<open>search\<close> over the books left, with the results so far: the length
      is compared with the limit after a match is appended, and the loop breaks there.\<close>
  "search_loop q limit [] results = results"
| "search_loop q limit (b # bs) results =
     (if matches q b then
        (let results' = results @ [b] in
         if int (length results') \<ge> limit then results' else search_loop q limit bs results')
      else search_loop q limit bs results)"

definition search :: "env \<Rightarrow> string \<Rightarrow> bool \<Rightarrow> int \<Rightarrow> store_file \<Rightarrow> (pyerr + book list) \<times> store_file" where
  "search env query include_archived limit f =
     (let q = lower (strip query) in
      if q = [] then (Inr [], f)
      else (case list_all_books env include_archived f of
              (Inl e, f') \<Rightarrow> (Inl e, f')
            | (Inr books, f') \<Rightarrow>
                (Inr (sort_key (\<lambda>x. (lower (title x), lower (author x)))
                        (search_loop q limit books [])), f')))"

definition get_by_id :: "env \<Rightarrow> json \<Rightarrow> store_file \<Rightarrow> (pyerr + book) \<times> store_file" where
  "get_by_id env book_id' f =
     (case load_books env f of
        (Inl e, f') \<Rightarrow> (Inl e, f')
      | (Inr books, f') \<Rightarrow>
          (case find (\<lambda>b. py_eq (ident b) book_id') books of
             Some b \<Rightarrow> (Inr b, f')
           | None \<Rightarrow> (Inl (BookNotFoundError (Some book_id') None), f')))"

definition get_by_isbn :: "env \<Rightarrow> string \<Rightarrow> store_file \<Rightarrow> (pyerr + book) \<times> store_file" where
  "get_by_isbn env isbn' f =
     (let norm = repo_normalize_isbn isbn' in
      case load_books env f of
        (Inl e, f') \<Rightarrow> (Inl e, f')
      | (Inr books, f') \<Rightarrow>
          (case find (\<lambda>b. isbn b = norm) books of
             Some b \<Rightarrow> (Inr b, f')
           | None \<Rightarrow> (Inl (BookNotFoundError None (Some norm)), f')))"

definition add :: "env \<Rightarrow> book \<Rightarrow> store_file \<Rightarrow> (pyerr + unit) \<times> store_file" where
  "add env b f =
     (case load_books env f of
        (Inl e, f') \<Rightarrow> (Inl e, f')
      | (Inr books, f') \<Rightarrow>
          if list_ex (\<lambda>x. isbn x = isbn b) books then (Inl (DuplicateISBNError (isbn b)), f')
          else save_books (books @ [b]) f')"

definition update :: "env \<Rightarrow> book \<Rightarrow> store_file \<Rightarrow> (pyerr + unit) \<times> store_file" where
  \<comment> \<open>The \<open>raise\<close> in the loop names \<open>DuplicateISBNErrror\<close>, which is bound nowhere:
      evaluating it raises \<open>NameError\<close>.\<close>
  "update env b f =
     (case load_books env f of
        (Inl e, f') \<Rightarrow> (Inl e, f')
      | (Inr books, f') \<Rightarrow>
          (case find_index_by_id books (ident b) of
             None \<Rightarrow> (Inl (BookNotFoundError (Some (ident b)) None), f')
           | Some idx \<Rightarrow>
               if list_ex (\<lambda>(i, x). i \<noteq> idx \<and> isbn x = isbn b) (enumerate 0 books)
               then (Inl (NameError ''DuplicateISBNErrror''), f')
               else save_books (books[idx := b]) f'))"

definition remove :: "env \<Rightarrow> json \<Rightarrow> store_file \<Rightarrow> (pyerr + unit) \<times> store_file" where
  "remove env book_id' f =
     (case load_books env f of
        (Inl e, f') \<Rightarrow> (Inl e, f')
      | (Inr books, f') \<Rightarrow>
          (case find_index_by_id books book_id' of
             None \<Rightarrow> (Inl (BookNotFoundError (Some book_id') None), f')
           | Some idx \<Rightarrow> save_books (take idx books @ drop (Suc idx) books) f'))"

definition archive_by_isbn :: "env \<Rightarrow> string \<Rightarrow> store_file \<Rightarrow> (pyerr + unit) \<times> store_file" where
  "archive_by_isbn env isbn' f =
     (case load_books env f of
        (Inl e, f') \<Rightarrow> (Inl e, f')
      | (Inr books, f') \<Rightarrow>
          (let norm = repo_normalize_isbn isbn' in
           case find_index_by_isbn books norm of
             None \<Rightarrow> (Inl (BookNotFoundError None (Some norm)), f')
           | Some idx \<Rightarrow> save_books (books[idx := mark_archived (books ! idx)]) f'))"

section \<open>\<open>services/inventory_service.py\<close>\<close>

text \<open>
  The commands of \<open>InventoryService\<close>. Each takes one \<open>env\<close> for every load of the
  books it makes, in the order of the loads. The caller's \<open>title\<close>, \<open>author\<close>,
  \<open>isbn\<close> and \<open>currency\<close> are strings, its \<open>price\<close> is what \<open>Decimal(str(price))\<close>
  gives (\<open>None\<close> when that raises), its quantities are integers.
\<close>

definition add_book ::
  "env \<Rightarrow> string \<times> datetime \<Rightarrow> env \<Rightarrow> string \<Rightarrow> string \<Rightarrow> string \<Rightarrow> decimal option \<Rightarrow> string
     \<Rightarrow> int \<Rightarrow> bool \<Rightarrow> store_file \<Rightarrow> (pyerr + book) \<times> store_file" where
  "add_book env1 new env2 title' author' isbn' price currency' quantity' update_price_if_changed f =
     (if quantity' \<le> 0 then (Inl (ValidationError ''quantity''), f)
      else
        (case get_by_isbn env1 isbn' f of
           (Inl e, f1) \<Rightarrow>
             if is_BookNotFoundError e then
               (case Book_init new (JStr title') (JStr author') (JStr isbn') price
                       (JStr currency') quantity' JNull False None of
                  Inl e' \<Rightarrow> (Inl e', f1)
                | Inr b \<Rightarrow>
                    (case add env2 b f1 of
                       (Inl e', f2) \<Rightarrow> (Inl e', f2)
                     | (Inr u, f2) \<Rightarrow> (Inr b, f2)))
             else (Inl e, f1)
         | (Inr existing, f1) \<Rightarrow>
             (case increase_stock existing quantity' of
                Inl e \<Rightarrow> (Inl e, f1)
              | Inr existing' \<Rightarrow>
                  (case (if update_price_if_changed then set_price existing' price
                         else Inr existing') of
                     Inl e \<Rightarrow> (Inl e, f1)
                   | Inr existing'' \<Rightarrow>
                       (case update env2 existing'' f1 of
                          (Inl e, f2) \<Rightarrow> (Inl e, f2)
                        | (Inr u, f2) \<Rightarrow> (Inr existing'', f2))))))"

definition modify_by_isbn ::
  "env \<Rightarrow> env \<Rightarrow> string \<Rightarrow> (book \<Rightarrow> pyerr + book) \<Rightarrow> store_file \<Rightarrow> (pyerr + book) \<times> store_file" where
  \<comment> \<open>What four commands share: \<open>get_by_isbn\<close>, one change of the book, \<open>update\<close>,
      and the changed book returned.\<close>
  "modify_by_isbn env1 env2 isbn' change f =
     (case get_by_isbn env1 isbn' f of
        (Inl e, f1) \<Rightarrow> (Inl e, f1)
      | (Inr b, f1) \<Rightarrow>
          (case change b of
             Inl e \<Rightarrow> (Inl e, f1)
           | Inr b' \<Rightarrow>
               (case update env2 b' f1 of
                  (Inl e, f2) \<Rightarrow> (Inl e, f2)
                | (Inr u, f2) \<Rightarrow> (Inr b', f2))))"

definition Inventory_set_price ::
  "env \<Rightarrow> env \<Rightarrow> string \<Rightarrow> decimal option \<Rightarrow> store_file \<Rightarrow> (pyerr + book) \<times> store_file" where
  "Inventory_set_price env1 env2 isbn' new_price f =
     modify_by_isbn env1 env2 isbn' (\<lambda>b. set_price b new_price) f"

definition Inventory_set_quantity ::
  "env \<Rightarrow> env \<Rightarrow> string \<Rightarrow> int \<Rightarrow> store_file \<Rightarrow> (pyerr + book) \<times> store_file" where
  "Inventory_set_quantity env1 env2 isbn' new_qty f =
     (if new_qty < 0 then (Inl (ValidationError ''quantity''), f)
      else modify_by_isbn env1 env2 isbn' (\<lambda>b. Inr (b\<lparr>quantity := new_qty\<rparr>)) f)"

definition Inventory_increase_stock ::
  "env \<Rightarrow> env \<Rightarrow> string \<Rightarrow> int \<Rightarrow> store_file \<Rightarrow> (pyerr + book) \<times> store_file" where
  "Inventory_increase_stock env1 env2 isbn' by' f =
     modify_by_isbn env1 env2 isbn' (\<lambda>b. increase_stock b by') f"

definition Inventory_decrease_stock ::
  "env \<Rightarrow> env \<Rightarrow> string \<Rightarrow> int \<Rightarrow> store_file \<Rightarrow> (pyerr + book) \<times> store_file" where
  "Inventory_decrease_stock env1 env2 isbn' by' f =
     modify_by_isbn env1 env2 isbn' (\<lambda>b. decrease_stock b by') f"

definition archive_if_empty ::
  "env \<Rightarrow> env \<Rightarrow> string \<Rightarrow> store_file \<Rightarrow> (pyerr + book) \<times> store_file" where
  \<comment> \<open>The book returned is the one \<open>get_by_isbn\<close> decoded; \<open>archive_by_isbn\<close> loads the
      books again and marks its own copy.\<close>
  "archive_if_empty env1 env2 isbn' f =
     (case get_by_isbn env1 isbn' f of
        (Inl e, f1) \<Rightarrow> (Inl e, f1)
      | (Inr b, f1) \<Rightarrow>
          if quantity b \<noteq> 0 then (Inl (ValidationError ''quantity''), f1)
          else (case archive_by_isbn env2 isbn' f1 of
                  (Inl e, f2) \<Rightarrow> (Inl e, f2)
                | (Inr u, f2) \<Rightarrow> (Inr b, f2)))"

section \<open>\<open>services/sales_service.py\<close>\<close>

definition sell ::
  "env \<Rightarrow> string \<times> datetime \<Rightarrow> env \<Rightarrow> string \<Rightarrow> int \<Rightarrow> store_file \<Rightarrow> (pyerr + sale) \<times> store_file" where
  \<comment> \<open>\<open>env1\<close> serves the load of \<open>get_by_isbn\<close>, \<open>new\<close> the sale's \<open>uuid4()\<close> and
      \<open>now()\<close>, \<open>env2\<close> the load of \<open>update\<close>.\<close>
  "sell env1 new env2 isbn' qty' f =
     (if qty' \<le> 0 then (Inl (ValidationError ''qty''), f)
      else
        (case get_by_isbn env1 isbn' f of
           (Inl e, f1) \<Rightarrow> (Inl e, f1)
         | (Inr b, f1) \<Rightarrow>
             if archived b then (Inl (ValidationError ''book''), f1)
             else if quantity b < qty' then
               (Inl (OutOfStockError (isbn b) qty' (quantity b)), f1)
             else
               (case Sale_create new (ident b) (JStr (isbn b)) qty' (price_cents b)
                       (JStr (currency b)) of
                  Inl e \<Rightarrow> (Inl e, f1)
                | Inr s \<Rightarrow>
                    (case decrease_stock b qty' of
                       Inl e \<Rightarrow> (Inl e, f1)
                     | Inr b' \<Rightarrow>
                         (case update env2 b' f1 of
                            (Inl e, f2) \<Rightarrow> (Inl e, f2)
                          | (Inr u, f2) \<Rightarrow>
                              (case load f2 of
                                 (Inl e, f3) \<Rightarrow> (Inl e, f3)
                               | (Inr data, f3) \<Rightarrow>
                                   (case save (setitem data ''sales''
                                            (JList (get_list data ''sales'' @ [Sale_to_dict s]))) f3 of
                                      (Inl e, f4) \<Rightarrow> (Inl e, f4)
                                    | (Inr u', f4) \<Rightarrow> (Inr s, f4))))))))"

fun decode_sales :: "json list \<Rightarrow> pyerr + sale list" where
  \<comment> \<open>\<open>[Sale.from_dict(d) for d in raw]\<close>: the first exception ends it.\<close>
  "decode_sales [] = Inr []"
| "decode_sales (d # raw) =
     bind (Sale_from_dict d) (\<lambda>s. bind (decode_sales raw) (\<lambda>ss. Inr (s # ss)))"

definition filter_by_isbn :: "string option \<Rightarrow> sale list \<Rightarrow> pyerr + sale list" where
  \<comment> \<open>\<open>if isbn and isbn.strip(): ...\<close>\<close>
  "filter_by_isbn isbn' sales =
     (case isbn' of
        None \<Rightarrow> Inr sales
      | Some i \<Rightarrow>
          if i \<noteq> [] \<and> strip i \<noteq> [] then
            bind (Sale_normalize_isbn (JStr i)) (\<lambda>norm_isbn.
              Inr (filter (\<lambda>s. py_eq (sale_isbn s) (JStr norm_isbn)) sales))
          else Inr sales)"

definition last_entries :: "int option \<Rightarrow> 'a list \<Rightarrow> 'a list" where
  \<comment> \<open>\<open>if limit is not None and limit > 0: sales = sales[-limit:]\<close>\<close>
  "last_entries limit xs =
     (case limit of
        None \<Rightarrow> xs
      | Some n \<Rightarrow> if n > 0 then drop (length xs - nat n) xs else xs)"

definition list_sales ::
  "string option \<Rightarrow> int option \<Rightarrow> store_file \<Rightarrow> (pyerr + sale list) \<times> store_file" where
  "list_sales isbn' limit f =
     (case load f of
        (Inl e, f1) \<Rightarrow> (Inl e, f1)
      | (Inr data, f1) \<Rightarrow>
          (bind (decode_sales (get_list data ''sales'')) (\<lambda>sales.
           bind (filter_by_isbn isbn' sales) (\<lambda>sales'.
           Inr (last_entries limit (sort_key timestamp sales')))), f1))"

definition sales_total :: "string option \<Rightarrow> store_file \<Rightarrow> (pyerr + decimal) \<times> store_file" where
  "sales_total isbn' f =
     (case list_sales isbn' None f of
        (Inl e, f1) \<Rightarrow> (Inl e, f1)
      | (Inr sales, f1) \<Rightarrow> (Inr (price_of_cents (sum_list (map total_cents sales))), f1))"

section \<open>The operations that write\<close>

datatype operation =
    Add env book
  | Update env book
  | Remove env json
  | Archive_by_isbn env string
  | Sell env "string \<times> datetime" env string int
  | Add_book env "string \<times> datetime" env string string string "decimal option" string int bool
  | Set_price env env string "decimal option"
  | Set_quantity env env string int
  | Increase_stock env env string int
  | Decrease_stock env env string int
  | Archive_if_empty env env string

fun run :: "operation \<Rightarrow> store_file \<Rightarrow> store_file" where
  \<comment> \<open>The file an operation leaves, whether it returns or raises.\<close>
  "run (Add e b) f = snd (add e b f)"
| "run (Update e b) f = snd (update e b f)"
| "run (Remove e i) f = snd (remove e i f)"
| "run (Archive_by_isbn e i) f = snd (archive_by_isbn e i f)"
| "run (Sell e1 new e2 i n) f = snd (sell e1 new e2 i n f)"
| "run (Add_book e1 new e2 t a i p c n u) f = snd (add_book e1 new e2 t a i p c n u f)"
| "run (Set_price e1 e2 i p) f = snd (Inventory_set_price e1 e2 i p f)"
| "run (Set_quantity e1 e2 i n) f = snd (Inventory_set_quantity e1 e2 i n f)"
| "run (Increase_stock e1 e2 i n) f = snd (Inventory_increase_stock e1 e2 i n f)"
| "run (Decrease_stock e1 e2 i n) f = snd (Inventory_decrease_stock e1 e2 i n f)"
| "run (Archive_if_empty e1 e2 i) f = snd (archive_if_empty e1 e2 i f)"

fun is_Sell :: "operation \<Rightarrow> bool" where
  "is_Sell (Sell e1 new e2 i n) = True"
| "is_Sell other = False"

fun stored_sales :: "store_file \<Rightarrow> json list" where
  \<comment> \<open>The sales collection as the file holds it (empty when there is none).\<close>
  "stored_sales (Content data) = get_list data ''sales''"
| "stored_sales f = []"

fun stored_books :: "store_file \<Rightarrow> json list" where
  "stored_books (Content data) = get_list data ''books''"
| "stored_books f = []"

section \<open>Invariants and views used in the statements\<close>

text \<open>
  What the constructor of \<open>Book\<close> establishes and its methods keep: a truthy \<open>id\<close>,
  stripped non-empty \<open>title\<close> and \<open>author\<close>, a normalized \<open>isbn\<close> of the right shape,
  a stripped upper-case \<open>currency\<close>, a price below the 28 digits \<open>quantize\<close> allows,
  and a quantity that is not negative.
\<close>

definition book_inv :: "book \<Rightarrow> bool" where
  "book_inv b =
     (truthy (ident b) \<and> valid_datetime (created_at b)
      \<and> title b \<noteq> [] \<and> strip (title b) = title b
      \<and> author b \<noteq> [] \<and> strip (author b) = author b
      \<and> repo_normalize_isbn (isbn b) = isbn b \<and> ISBN_RE_match (isbn b)
      \<and> currency b \<noteq> [] \<and> upper (strip (currency b)) = currency b
      \<and> 0 \<le> price_cents b \<and> price_cents b < 10 ^ 28 \<and> 0 \<le> quantity b)"

text \<open>
  How a field of the root object reads: \<open>load\<close> takes an absent key and a null for the
  empty list, \<open>save\<close> takes lists only.
\<close>

fun lenient :: "json option \<Rightarrow> json list option" where
  "lenient None = Some []"
| "lenient (Some JNull) = Some []"
| "lenient (Some (JList xs)) = Some xs"
| "lenient (Some v) = None"

fun strict :: "json option \<Rightarrow> json list option" where
  "strict (Some (JList xs)) = Some xs"
| "strict v = None"

text \<open>
  What \<open>Book.from_dict\<close> gives for every stored record, in the order of the records.
\<close>

definition results :: "env \<Rightarrow> json list \<Rightarrow> (pyerr + book) list" where
  "results env raw = map (\<lambda>(i, item). from_dict (env i) item) (enumerate 0 raw)"

text \<open>
  The file loads as the encodings of the books \<open>bs\<close> and the sale records \<open>ss\<close>.
\<close>

definition holds :: "store_file \<Rightarrow> book list \<Rightarrow> json list \<Rightarrow> bool" where
  "holds f bs ss =
     (fst (load f) = Inr (JObj [(''books'', JList (map to_dict bs)), (''sales'', JList ss)]))"

section \<open>Example documents\<close>

definition ex_env :: env where
  "ex_env = (\<lambda>i. (''generated'', (2024, 1, 1, 0, 0, 0, 0)))"

definition clean_code :: json where
  "clean_code = JObj
     [(''id'', JStr ''a''), (''title'', JStr ''Clean Code''), (''author'', JStr ''Martin''),
      (''isbn'', JStr ''9780132350884''), (''price_cents'', JInt 1000),
      (''currency'', JStr ''USD''), (''quantity'', JInt 2), (''archived'', JBool False),
      (''created_at'', JStr ''2024-05-06T07:08:09'')]"

definition refactoring :: json where
  "refactoring = JObj
     [(''id'', JStr ''b''), (''title'', JStr ''Refactoring''), (''author'', JStr ''Fowler''),
      (''isbn'', JStr ''9780201485677''), (''price_cents'', JInt 1100),
      (''currency'', JStr ''USD''), (''quantity'', JInt 0), (''archived'', JBool True),
      (''created_at'', JStr ''2024-05-06T07:08:09'')]"

definition two_books :: store_file where
  "two_books = Content (JObj [(''books'', JList [clean_code, refactoring]), (''sales'', JList [])])"

definition no_title :: json where
  "no_title = JObj
     [(''id'', JStr ''c''), (''author'', JStr ''Evans''), (''isbn'', JStr ''9780321125217''),
      (''price_cents'', JInt 1500), (''currency'', JStr ''USD''), (''quantity'', JInt 1),
      (''archived'', JBool False), (''created_at'', JStr ''2024-05-06T07:08:09'')]"

definition bad_quantity :: json where
  "bad_quantity = JObj
     [(''id'', JStr ''d''), (''title'', JStr ''DDD''), (''author'', JStr ''Evans''),
      (''isbn'', JStr ''9780321125217''), (''price_cents'', JInt 1500),
      (''currency'', JStr ''USD''), (''quantity'', JInt (- 1)), (''archived'', JBool False),
      (''created_at'', JStr ''2024-05-06T07:08:09'')]"

definition sale_1 :: json where
  "sale_1 = JObj
     [(''sale_id'', JStr ''s1''), (''book_id'', JStr ''a''), (''isbn'', JStr ''9780132350884''),
      (''qty'', JInt 1), (''unit_price_cents'', JInt 1000), (''currency'', JStr ''USD''),
      (''timestamp'', JStr ''2024-05-08T10:00:00'')]"

definition sale_2 :: json where
  "sale_2 = JObj
     [(''sale_id'', JStr ''s2''), (''book_id'', JStr ''b''), (''isbn'', JStr ''9780201485677''),
      (''qty'', JInt 2), (''unit_price_cents'', JInt 1100), (''currency'', JStr ''USD''),
      (''timestamp'', JStr ''2024-05-07T10:00:00'')]"

definition sale_3 :: json where
  "sale_3 = JObj
     [(''sale_id'', JStr ''s3''), (''book_id'', JStr ''a''), (''isbn'', JStr ''9780132350884''),
      (''qty'', JInt 3), (''unit_price_cents'', JInt 900), (''currency'', JStr ''USD''),
      (''timestamp'', JStr ''2024-05-06T10:00:00'')]"

definition three_sales :: store_file where
  "three_sales = Content (JObj [(''books'', JList []), (''sales'', JList [sale_1, sale_2, sale_3])])"

definition sold_1 :: sale where
  "sold_1 = \<lparr>sale_id = JStr ''s1'', book_id = JStr ''a'', sale_isbn = JStr ''9780132350884'',
     qty = 1, unit_price_cents = 1000, sale_currency = JStr ''USD'',
     timestamp = (2024, 5, 8, 10, 0, 0, 0)\<rparr>"

definition sold_2 :: sale where
  "sold_2 = \<lparr>sale_id = JStr ''s2'', book_id = JStr ''b'', sale_isbn = JStr ''9780201485677'',
     qty = 2, unit_price_cents = 1100, sale_currency = JStr ''USD'',
     timestamp = (2024, 5, 7, 10, 0, 0, 0)\<rparr>"

definition sold_3 :: sale where
  "sold_3 = \<lparr>sale_id = JStr ''s3'', book_id = JStr ''a'', sale_isbn = JStr ''9780132350884'',
     qty = 3, unit_price_cents = 900, sale_currency = JStr ''USD'',
     timestamp = (2024, 5, 6, 10, 0, 0, 0)\<rparr>"

definition clean_code_book :: book where
  "clean_code_book =
     \<lparr>ident = JStr ''a'', created_at = (2024, 5, 6, 7, 8, 9, 0), title = ''Clean Code'',
      author = ''Martin'', isbn = ''9780132350884'', currency = ''USD'', price_cents = 1000,
      quantity = 2, archived = False\<rparr>"

definition ddd_book :: book where
  "ddd_book =
     \<lparr>ident = JStr ''c'', created_at = (2024, 5, 6, 7, 8, 9, 0), title = ''DDD'',
      author = ''Evans'', isbn = ''9780321125217'', currency = ''USD'', price_cents = 1500,
      quantity = 0, archived = False\<rparr>"

definition ddd :: json where
  "ddd = JObj
     [(''id'', JStr ''c''), (''title'', JStr ''DDD''), (''author'', JStr ''Evans''),
      (''isbn'', JStr ''9780321125217''), (''price_cents'', JInt 1500),
      (''currency'', JStr ''USD''), (''quantity'', JInt 0), (''archived'', JBool False),
      (''created_at'', JStr ''2024-05-06T07:08:09'')]"

definition shop :: store_file where
  "shop = Content (JObj [(''books'', JList [clean_code, ddd]), (''sales'', JList [sale_3])])"

section \<open>Properties of the Python values\<close>

subsection \<open>Strings\<close>

lemma of_char_upper_char:
  "(of_char (upper_char c) :: nat) = (if 97 \<le> (of_char c :: nat) \<and> (of_char c :: nat) \<le> 122 then of_char c - 32 else of_char c)"
proof -
  have "(of_char c :: nat) < 256" by simp
  then have "(of_char c :: nat) - 32 < 256" by arith
  then have "((of_char c :: nat) - 32) mod 256 = of_char c - 32" by (rule mod_less)
  then show ?thesis by (simp add: upper_char_def Let_def)
qed

lemma of_char_lower_char:
  "(of_char (lower_char c) :: nat) = (if 65 \<le> (of_char c :: nat) \<and> (of_char c :: nat) \<le> 90 then of_char c + 32 else of_char c)"
  by (simp add: lower_char_def Let_def)

lemma isspace_upper_char [simp]: "isspace (upper_char c) = isspace c"
  by (auto simp: isspace_def of_char_upper_char Let_def)

lemma upper_char_idem [simp]: "upper_char (upper_char c) = upper_char c"
proof -
  have "(of_char (upper_char (upper_char c)) :: nat) = of_char (upper_char c)"
    by (auto simp: of_char_upper_char)
  then show ?thesis by simp
qed

lemma upper_idem [simp]: "upper (upper s) = upper s"
  by (simp add: upper_def)

lemma strip_ends:
  "strip s = [] \<or> (\<not> isspace (hd (strip s)) \<and> \<not> isspace (last (strip s)))"
proof (cases "strip s = []")
  case True then show ?thesis by simp
next
  case False
  let ?t = "dropWhile isspace s"
  let ?r = "dropWhile isspace (rev ?t)"
  have u: "strip s = rev ?r" by (simp add: strip_def)
  with False have r: "?r \<noteq> []" by simp
  then have "\<not> isspace (hd ?r)" by (rule hd_dropWhile)
  then have l: "\<not> isspace (last (strip s))" using r by (simp add: u last_rev)
  have "?t = rev (takeWhile isspace (rev ?t) @ ?r)"
    by (simp only: takeWhile_dropWhile_id rev_rev_ident)
  then have "?t = rev ?r @ rev (takeWhile isspace (rev ?t))" by (simp only: rev_append)
  then have t: "?t = strip s @ rev (takeWhile isspace (rev ?t))" by (simp only: u)
  then have "hd ?t = hd (strip s)" using False by (metis hd_append2)
  moreover have "?t \<noteq> []" using r by (auto dest: set_dropWhileD)
  then have "\<not> isspace (hd ?t)" by (rule hd_dropWhile)
  ultimately show ?thesis using l by simp
qed

lemma strip_self:
  assumes "s \<noteq> []" "\<not> isspace (hd s)" "\<not> isspace (last s)"
  shows "strip s = s"
proof -
  have a: "dropWhile isspace s = s" using assms by (simp add: dropWhile_eq_self_iff)
  have "dropWhile isspace (rev s) = rev s" using assms by (simp add: dropWhile_eq_self_iff hd_rev)
  then show ?thesis by (simp add: strip_def a)
qed

lemma strip_Nil [simp]: "strip [] = []"
  by (simp add: strip_def)

lemma strip_idem [simp]: "strip (strip s) = strip s"
proof (cases "strip s = []")
  case True then show ?thesis by simp
next
  case False
  then show ?thesis using strip_ends[of s] by (intro strip_self) auto
qed

lemma strip_upper: "strip (upper s) = upper (strip s)"
  by (simp add: strip_def upper_def dropWhile_map rev_map comp_def)

lemma upper_eq_Nil [simp]: "upper s = [] \<longleftrightarrow> s = []"
  by (simp add: upper_def)

subsection \<open>\<open>isoformat\<close> and \<open>fromisoformat\<close>\<close>

lemma digit_char_props:
  assumes "n < 10"
  shows "is_digit (digit_char n)" "digit_val (digit_char n) = n"
proof -
  have "(48 + n) mod 256 = 48 + n" using assms by simp
  then have "(of_char (digit_char n) :: nat) = 48 + n" by (simp add: digit_char_def)
  then show "is_digit (digit_char n)" "digit_val (digit_char n) = n"
    using assms by (simp_all add: is_digit_def digit_val_def Let_def)
qed

lemma length_zfill [simp]: "length (zfill w n) = w"
  by (induction w n rule: zfill.induct) simp_all

lemma list_all_zfill [simp]: "list_all is_digit (zfill w n)"
  by (induction w n rule: zfill.induct) (simp_all add: digit_char_props)

lemma foldl_zfill:
  "foldl (\<lambda>a c. 10 * a + digit_val c) 0 (zfill w n) = n mod 10 ^ w"
proof (induction w n rule: zfill.induct)
  case (1 n)
  then show ?case by simp
next
  case (2 w n)
  have "n mod (10 * 10 ^ w) = 10 * (n div 10 mod 10 ^ w) + n mod 10"
    by (simp add: mod_mult2_eq)
  then show ?case using 2 by (simp add: digit_char_props)
qed

lemma digits_nat_zfill:
  "0 < w \<Longrightarrow> n < 10 ^ w \<Longrightarrow> digits_nat (zfill w n) = Some n"
  by (auto simp: digits_nat_def foldl_zfill dest: arg_cong[where f = length])

lemma zfill_Cons: "0 < w \<Longrightarrow> zfill w n = hd (zfill w n) # tl (zfill w n)"
  by (metis length_zfill length_greater_0_conv list.collapse)

lemma list2: "length xs = 2 \<Longrightarrow> \<exists>a b. xs = [a, b]"
  by (auto simp: eval_nat_numeral length_Suc_conv)

lemma list4: "length xs = 4 \<Longrightarrow> \<exists>a b c d. xs = [a, b, c, d]"
  by (auto simp: eval_nat_numeral length_Suc_conv)

lemma list6: "length xs = 6 \<Longrightarrow> \<exists>a b c d e f. xs = [a, b, c, d, e, f]"
  by (auto simp: eval_nat_numeral length_Suc_conv)

lemma fromisoformat_isoformat:
  assumes "valid_datetime t"
  shows "fromisoformat (isoformat t) = Inr t"
proof -
  obtain y mo d h mi s us where t: "t = (y, mo, d, h, mi, s, us)" by (cases t) auto
  from assms t have r: "y < 10 ^ 4" "mo < 10 ^ 2" "d < 10 ^ 2" "h < 10 ^ 2" "mi < 10 ^ 2" "s < 10 ^ 2"
    "us < 10 ^ 6"
    by (auto simp: days_in_month_def split: if_splits)
  have py: "digits_nat (zfill 4 y) = Some y" using r by (intro digits_nat_zfill) simp_all
  have pmo: "digits_nat (zfill 2 mo) = Some mo" using r by (intro digits_nat_zfill) simp_all
  have pd: "digits_nat (zfill 2 d) = Some d" using r by (intro digits_nat_zfill) simp_all
  have ph: "digits_nat (zfill 2 h) = Some h" using r by (intro digits_nat_zfill) simp_all
  have pmi: "digits_nat (zfill 2 mi) = Some mi" using r by (intro digits_nat_zfill) simp_all
  have ps: "digits_nat (zfill 2 s) = Some s" using r by (intro digits_nat_zfill) simp_all
  have pus: "digits_nat (zfill 6 us) = Some us" using r by (intro digits_nat_zfill) simp_all
  obtain y1 y2 y3 y4 where ey: "zfill 4 y = [y1, y2, y3, y4]" using list4[of "zfill 4 y"] by auto
  obtain mo1 mo2 where emo: "zfill 2 mo = [mo1, mo2]" using list2[of "zfill 2 mo"] by auto
  obtain d1 d2 where ed: "zfill 2 d = [d1, d2]" using list2[of "zfill 2 d"] by auto
  obtain h1 h2 where eh: "zfill 2 h = [h1, h2]" using list2[of "zfill 2 h"] by auto
  obtain mi1 mi2 where emi: "zfill 2 mi = [mi1, mi2]" using list2[of "zfill 2 mi"] by auto
  obtain s1 s2 where es: "zfill 2 s = [s1, s2]" using list2[of "zfill 2 s"] by auto
  obtain u1 u2 u3 u4 u5 u6 where eus: "zfill 6 us = [u1, u2, u3, u4, u5, u6]"
    using list6[of "zfill 6 us"] by auto
  note ps' = py[unfolded ey] pmo[unfolded emo] pd[unfolded ed] ph[unfolded eh] pmi[unfolded emi]
    ps[unfolded es] pus[unfolded eus]
  show ?thesis
  proof (cases "us = 0")
    case True
    have "isoformat t = [y1, y2, y3, y4, CHR ''-'', mo1, mo2, CHR ''-'', d1, d2, CHR ''T'',
        h1, h2, CHR '':'', mi1, mi2, CHR '':'', s1, s2]"
      using True by (simp add: t ey emo ed eh emi es)
    then show ?thesis using ps' assms True by (simp add: fromisoformat_def t)
  next
    case False
    have "isoformat t = [y1, y2, y3, y4, CHR ''-'', mo1, mo2, CHR ''-'', d1, d2, CHR ''T'',
        h1, h2, CHR '':'', mi1, mi2, CHR '':'', s1, s2, CHR ''.'', u1, u2, u3, u4, u5, u6]"
      using False by (simp add: t ey emo ed eh emi es eus)
    then show ?thesis using ps' assms by (simp add: fromisoformat_def t)
  qed
qed

lemma fromisoformat_valid: "fromisoformat s = Inr t \<Longrightarrow> valid_datetime t"
  by (auto simp: fromisoformat_def split: if_splits option.splits prod.splits)

subsection \<open>Decimals\<close>

lemma ndigits_upper: "n < 10 ^ ndigits n"
proof (induction n rule: ndigits.induct)
  case (1 n)
  show ?case
  proof (cases "n < 10")
    case True then show ?thesis by (simp add: ndigits.simps)
  next
    case False
    then have "n div 10 < 10 ^ ndigits (n div 10)" using 1 by simp
    then have "n < 10 * 10 ^ ndigits (n div 10)" by linarith
    then show ?thesis using False by (simp add: ndigits.simps[of n])
  qed
qed

lemma ndigits_lower: "0 < n \<Longrightarrow> 10 ^ (ndigits n - 1) \<le> n"
proof (induction n rule: ndigits.induct)
  case (1 n)
  show ?case
  proof (cases "n < 10")
    case True then show ?thesis using 1(2) by (simp add: ndigits.simps)
  next
    case False
    then have "10 ^ (ndigits (n div 10) - 1) \<le> n div 10" using 1 by simp
    then have "10 * 10 ^ (ndigits (n div 10) - 1) \<le> n" by linarith
    moreover have "0 < ndigits (n div 10)" by (simp add: ndigits.simps[of "n div 10"])
    then have "10 * 10 ^ (ndigits (n div 10) - 1) = (10::nat) ^ ndigits (n div 10)"
      by (metis power_eq_if less_numeral_extra(3))
    ultimately show ?thesis using False by (simp add: ndigits.simps[of n])
  qed
qed

lemma pow10_powi: "pow10 k = 10 powi k"
  by (simp add: pow10_def power_int_def field_simps)

lemma pow10_pos [simp]: "0 < pow10 k"
  by (simp add: pow10_def)

lemma pow10_add: "pow10 (a + b) = pow10 a * pow10 b"
  by (simp add: pow10_powi power_int_add)

lemma pow10_0 [simp]: "pow10 0 = 1"
  by (simp add: pow10_def)

lemma pow10_nat: "pow10 (int n) = 10 ^ n"
  by (simp add: pow10_def)

lemma pow10_mono: "a \<le> b \<Longrightarrow> pow10 a \<le> pow10 b"
  by (simp add: pow10_powi power_int_increasing)

lemma pow10_less_cancel: "pow10 a < pow10 b \<Longrightarrow> a < b"
  using pow10_mono[of b a] by (cases "a < b") auto

lemma adjusted_lower:
  assumes "0 < q"
  shows "pow10 (adjusted q) \<le> q"
proof -
  obtain a b where ab: "quotient_of q = (a, b)" by (cases "quotient_of q") auto
  then have b: "0 < b" by (rule quotient_of_denom_pos)
  have q: "q = of_int a / of_int b" using ab by (rule quotient_of_div)
  have a: "0 < a" using assms b q by (simp add: zero_less_divide_iff)
  define da where "da = ndigits (nat a)"
  define db where "db = ndigits (nat b)"
  define d where "d = int da - int db"
  have adj: "adjusted q = (if pow10 d \<le> q then d else d - 1)"
    by (simp add: adjusted_def ab d_def da_def db_def Let_def)
  show ?thesis
  proof (cases "pow10 d \<le> q")
    case True then show ?thesis by (simp add: adj)
  next
    case False
    have "10 ^ (da - 1) \<le> nat a" unfolding da_def using a by (intro ndigits_lower) simp
    then have "int (10 ^ (da - 1)) \<le> a" using a by linarith
    then have la: "(10::rat) ^ (da - 1) \<le> of_int a"
      by (metis of_int_le_iff of_int_of_nat_eq of_nat_power of_nat_numeral)
    have "nat b < 10 ^ db" unfolding db_def by (rule ndigits_upper)
    then have "b < int (10 ^ db)" using b by linarith
    then have ub: "of_int b < (10::rat) ^ db"
      by (metis of_int_less_iff of_int_of_nat_eq of_nat_power of_nat_numeral)
    have dapos: "0 < da" unfolding da_def by (simp add: ndigits.simps[of "nat a"])
    have "d - 1 = int (da - 1) + (- int db)" using dapos by (simp add: d_def)
    then have "pow10 (d - 1) = pow10 (int (da - 1)) * pow10 (- int db)"
      by (simp only: pow10_add)
    also have "\<dots> = 10 ^ (da - 1) / 10 ^ db"
      by (simp add: pow10_nat) (simp add: pow10_def)
    also have "\<dots> \<le> of_int a / 10 ^ db" using la by (simp add: divide_right_mono)
    also have "\<dots> \<le> of_int a / of_int b"
      using ub a b by (intro divide_left_mono) (simp_all add: less_imp_le)
    finally have "pow10 (d - 1) \<le> q" by (simp only: q)
    moreover have "adjusted q = d - 1" using False by (simp add: adj)
    ultimately show ?thesis by simp
  qed
qed

lemma round_half_even_of_int [simp]: "round_half_even (of_int z) = z"
  by (simp add: round_half_even_def)

lemma round_half_even_0 [simp]: "round_half_even 0 = 0"
  by (simp add: round_half_even_def)

lemma round_half_even_nonneg: "0 \<le> q \<Longrightarrow> 0 \<le> round_half_even q"
  by (auto simp: round_half_even_def Let_def)

lemma round_prec_exact:
  assumes "0 < q" "q < pow10 m" "q * pow10 (28 - m) = of_int c"
  shows "round_prec q = q"
proof -
  define k where "k = 27 - adjusted \<bar>q\<bar>"
  have "pow10 (adjusted q) \<le> q" using assms(1) by (rule adjusted_lower)
  then have "pow10 (adjusted q) < pow10 m" using assms(2) by simp
  then have "adjusted q < m" by (rule pow10_less_cancel)
  then have km: "0 \<le> k - (28 - m)" using assms(1) by (simp add: k_def)
  have "q * pow10 k = q * pow10 ((28 - m) + (k - (28 - m)))" by simp
  also have "\<dots> = of_int c * pow10 (k - (28 - m))"
    by (simp only: pow10_add mult.assoc[symmetric] assms(3))
  also have "\<dots> = of_int c * 10 ^ nat (k - (28 - m))" using km by (simp add: pow10_def)
  also have "\<dots> = of_int (c * 10 ^ nat (k - (28 - m)))" by simp
  finally have e: "q * pow10 k = of_int (c * 10 ^ nat (k - (28 - m)))" .
  have "round_half_even (q * pow10 k) = c * 10 ^ nat (k - (28 - m))"
    by (simp only: e round_half_even_of_int)
  then have "of_int (round_half_even (q * pow10 k)) * pow10 (- k) = q * pow10 k * pow10 (- k)"
    by (simp only: e)
  also have "\<dots> = q" by (simp add: mult.assoc pow10_add[symmetric])
  finally show ?thesis using assms(1) by (simp add: round_prec_def k_def Let_def)
qed

lemma round_prec_nonneg: "0 \<le> q \<Longrightarrow> 0 \<le> round_prec q"
  by (auto simp: round_prec_def Let_def intro!: mult_nonneg_nonneg round_half_even_nonneg
      simp: less_imp_le)

lemma to_cents_price_of_cents:
  assumes "0 \<le> n" "n < 10 ^ 28"
  shows "to_cents (Some (price_of_cents n)) = Inr n"
proof (cases "n = 0")
  case True
  then show ?thesis by (simp add: to_cents_def price_of_cents_def round_prec_def)
next
  case False
  with assms have pos: "0 < n" by simp
  have n28: "(of_int n :: rat) < 10 ^ 28" using assms(2)
    by (metis of_int_less_iff of_int_numeral of_int_power)
  have "round_prec (of_int n / 100) = of_int n / 100"
  proof (rule round_prec_exact[where m = 26 and c = n])
    show "0 < (of_int n :: rat) / 100" using pos by simp
    show "(of_int n :: rat) / 100 < pow10 26" using n28 by (simp add: pow10_def)
    show "(of_int n :: rat) / 100 * pow10 (28 - 26) = of_int n" by (simp add: pow10_def)
  qed
  moreover have "round_prec (of_int n) = of_int n"
  proof (rule round_prec_exact[where m = 28 and c = n])
    show "0 < (of_int n :: rat)" using pos by simp
    show "(of_int n :: rat) < pow10 28" using n28 by (simp add: pow10_def)
    show "(of_int n :: rat) * pow10 (28 - 28) = of_int n" by simp
  qed
  ultimately show ?thesis using assms n28 pos
    by (simp add: to_cents_def price_of_cents_def Let_def)
qed

lemma to_cents_range:
  assumes "to_cents amount = Inr p"
  shows "0 \<le> p \<and> p < 10 ^ 28"
proof -
  from assms obtain dec where d: "amount = Some (Finite dec)" "\<not> dec < 0"
    by (auto simp: to_cents_def split: option.splits decimal.splits if_splits)
  then have "0 \<le> round_prec (dec * 100)" by (intro round_prec_nonneg) simp
  then have "0 \<le> round_half_even (round_prec (dec * 100))" by (rule round_half_even_nonneg)
  then show ?thesis using assms d
    by (auto simp: to_cents_def Let_def split: if_splits)
qed

section \<open>Properties of \<open>Book\<close>\<close>

lemma upper_char_eq_dash [simp]: "upper_char c = CHR ''-'' \<longleftrightarrow> c = CHR ''-''"
proof -
  have "(of_char (upper_char c) :: nat) = of_char CHR ''-'' \<longleftrightarrow> (of_char c :: nat) = of_char CHR ''-''"
    by (auto simp: of_char_upper_char)
  then show ?thesis by (simp only: of_char_eq_iff)
qed

lemma upper_char_eq_space [simp]: "upper_char c = CHR '' '' \<longleftrightarrow> c = CHR '' ''"
proof -
  have "(of_char (upper_char c) :: nat) = of_char CHR '' '' \<longleftrightarrow> (of_char c :: nat) = of_char CHR '' ''"
    by (auto simp: of_char_upper_char)
  then show ?thesis by (simp only: of_char_eq_iff)
qed

lemma upper_Nil [simp]: "upper [] = []"
  by (simp add: upper_def)

lemma repo_normalize_isbn_idem [simp]:
  "repo_normalize_isbn (repo_normalize_isbn s) = repo_normalize_isbn s"
  by (simp add: repo_normalize_isbn_def upper_def filter_map comp_def)

lemma fold_repo_normalize_isbn [simp]:
  "upper (filter (\<lambda>c. c \<noteq> CHR ''-'' \<and> c \<noteq> CHR '' '') s) = repo_normalize_isbn s"
  by (simp add: repo_normalize_isbn_def)

lemma bind_Inr [simp]: "bind (Inr a) f = f a"
  by (simp add: bind_def)

lemma bind_Inl [simp]: "bind (Inl e) f = Inl e"
  by (simp add: bind_def)

lemma bind_eq_Inr: "bind m f = Inr b \<longleftrightarrow> (\<exists>a. m = Inr a \<and> f a = Inr b)"
  by (cases m) simp_all

lemma Book_init_valid:
  assumes "book_inv b"
  shows "Book_init env (JStr (title b)) (JStr (author b)) (JStr (isbn b))
           (Some (price_of_cents (price_cents b))) (JStr (currency b)) (quantity b) (ident b)
           (archived b) (Some (created_at b)) = Inr b"
proof -
  have c: "strip (currency b) \<noteq> []" using assms by (auto simp: book_inv_def)
  have n: "repo_normalize_isbn (isbn b) = isbn b" "ISBN_RE_match (isbn b)"
    using assms by (simp_all add: book_inv_def)
  have p: "to_cents (Some (price_of_cents (price_cents b))) = Inr (price_cents b)"
    using assms by (intro to_cents_price_of_cents) (simp_all add: book_inv_def)
  show ?thesis using assms c
    by (simp add: Book_init_def book_inv_def n p validate_non_negative_int_def)
qed

lemma from_dict_to_dict:
  assumes "book_inv b"
  shows "from_dict env (to_dict b) = Inr b"
proof -
  have v: "valid_datetime (created_at b)" using assms by (simp add: book_inv_def)
  show ?thesis
    by (simp add: to_dict_def getitem_def get_default_def fromisoformat_isoformat[OF v]
        Book_init_valid[OF assms])
qed

lemma validate_non_empty_Inr:
  "validate_non_empty field v = Inr t \<Longrightarrow> t \<noteq> [] \<and> strip t = t"
  by (cases v) (auto split: if_splits)

lemma validate_currency_Inr:
  "validate_currency v = Inr c \<Longrightarrow> c \<noteq> [] \<and> upper (strip c) = c"
  by (cases v) (auto split: if_splits simp: strip_upper)

lemma Book_normalize_isbn_Inr:
  "Book_normalize_isbn v = Inr i \<Longrightarrow> repo_normalize_isbn i = i"
  by (cases v) auto

lemma Book_init_inv:
  assumes "Book_init env t a i p c q bid arch created = Inr b"
    and "valid_datetime (case created of Some d \<Rightarrow> d | None \<Rightarrow> snd env)"
    and "fst env \<noteq> []"
  shows "book_inv b"
proof -
  from assms(1) obtain t' a' i' c' p' q' where
    s: "validate_non_empty ''title'' t = Inr t'" "validate_non_empty ''author'' a = Inr a'"
      "Book_normalize_isbn i = Inr i'" "ISBN_RE_match i'" "validate_currency c = Inr c'"
      "to_cents p = Inr p'" "validate_non_negative_int ''quantity'' q = Inr q'"
    and b: "b = \<lparr>ident = (if truthy bid then bid else JStr (fst env)),
        created_at = (case created of Some d \<Rightarrow> d | None \<Rightarrow> snd env),
        title = t', author = a', isbn = i', currency = c', price_cents = p', quantity = q',
        archived = arch\<rparr>"
    by (auto simp: Book_init_def Let_def bind_eq_Inr split: if_splits)
  show ?thesis
    using validate_non_empty_Inr[OF s(1)] validate_non_empty_Inr[OF s(2)]
      Book_normalize_isbn_Inr[OF s(3)] s(4) validate_currency_Inr[OF s(5)] to_cents_range[OF s(6)]
      s(7) assms(2,3)
    by (auto simp: book_inv_def b validate_non_negative_int_def split: if_splits)
qed

lemma parse_timestamp_valid: "parse_timestamp v = Inr t \<Longrightarrow> valid_datetime t"
  by (cases v) (auto dest: fromisoformat_valid)

lemma from_dict_inv:
  assumes "from_dict env item = Inr b" "valid_datetime (snd env)" "fst env \<noteq> []"
  shows "book_inv b"
proof -
  from assms(1) obtain data where item: "item = JObj data" by (cases item) auto
  from assms(1)[unfolded item] obtain created t a i p c q bid arch where
    cr: "(case map_of data ''created_at'' of None \<Rightarrow> Inr None
           | Some v \<Rightarrow> bind (parse_timestamp v) (\<lambda>t. Inr (Some t))) = Inr created"
    and bi: "Book_init env t a i p c q bid arch created = Inr b"
    by (auto simp: bind_eq_Inr)
  have "valid_datetime (case created of Some d \<Rightarrow> d | None \<Rightarrow> snd env)"
    using cr assms(2)
    by (auto split: option.splits simp: bind_eq_Inr dest: parse_timestamp_valid)
  then show ?thesis by (rule Book_init_inv[OF bi _ assms(3)])
qed

section \<open>Evaluation on concrete inputs\<close>

lemma char_of_eq_conv: "char_of (n::nat) = c \<longleftrightarrow> n mod 256 = of_char c"
  by (metis of_char_of char_of_char of_char_mod_256 char_of_mod_256)

lemmas eval_simps = getitem_def get_default_def fromisoformat_def digits_nat_def is_digit_def
  digit_val_def days_in_month_def is_leap_def Book_init_def to_cents_price_of_cents strip_def
  isspace_def ISBN_RE_match_def isbn_shape_def upper_def upper_char_def lower_def lower_char_def
  validate_non_negative_int_def validate_positive_int_def repo_normalize_isbn_def Let_def
  char_of_eq_conv

lemma to_cents_example: "to_cents (Some (Finite (1234 / 100))) = Inr 1234"
  by (simp add: to_cents_def round_prec_def adjusted_def ndigits.simps pow10_def round_half_even_def Let_def)

lemma from_dict_clean_code:
  "from_dict e clean_code =
     Inr \<lparr>ident = JStr ''a'', created_at = (2024, 5, 6, 7, 8, 9, 0), title = ''Clean Code'',
       author = ''Martin'', isbn = ''9780132350884'', currency = ''USD'', price_cents = 1000,
       quantity = 2, archived = False\<rparr>"
  by (simp add: clean_code_def eval_simps del: fold_repo_normalize_isbn)

lemma from_dict_refactoring:
  "from_dict e refactoring =
     Inr \<lparr>ident = JStr ''b'', created_at = (2024, 5, 6, 7, 8, 9, 0), title = ''Refactoring'',
       author = ''Fowler'', isbn = ''9780201485677'', currency = ''USD'', price_cents = 1100,
       quantity = 0, archived = True\<rparr>"
  by (simp add: refactoring_def eval_simps del: fold_repo_normalize_isbn)

lemma from_dict_no_title: "from_dict e no_title = Inl (KeyError ''title'')"
  by (simp add: no_title_def eval_simps)

lemma from_dict_bad_quantity: "from_dict e bad_quantity = Inl (ValidationError ''quantity'')"
  by (simp add: bad_quantity_def eval_simps del: fold_repo_normalize_isbn)

lemma load_two_books:
  "load two_books = (Inr (JObj [(''books'', JList [clean_code, refactoring]), (''sales'', JList [])]), two_books)"
  by (simp add: two_books_def load_def get_default_def Let_def)

lemma load_books_two_books:
  "load_books e two_books =
     (Inr [\<lparr>ident = JStr ''a'', created_at = (2024, 5, 6, 7, 8, 9, 0), title = ''Clean Code'',
             author = ''Martin'', isbn = ''9780132350884'', currency = ''USD'', price_cents = 1000,
             quantity = 2, archived = False\<rparr>,
           \<lparr>ident = JStr ''b'', created_at = (2024, 5, 6, 7, 8, 9, 0), title = ''Refactoring'',
             author = ''Fowler'', isbn = ''9780201485677'', currency = ''USD'', price_cents = 1100,
             quantity = 0, archived = True\<rparr>], two_books)"
  by (simp add: load_books_def load_two_books from_dict_clean_code from_dict_refactoring)

lemma char_of_eq_conv': "c = char_of (n::nat) \<longleftrightarrow> n mod 256 = of_char c"
  using char_of_eq_conv[of n c] by auto

lemma Sale_from_dict_examples:
  "Sale_from_dict sale_1 = Inr sold_1"
  "Sale_from_dict sale_2 = Inr sold_2"
  "Sale_from_dict sale_3 = Inr sold_3"
  by (simp_all add: sale_1_def sale_2_def sale_3_def sold_1_def sold_2_def sold_3_def eval_simps)

lemma Sale_normalize_isbn_example:
  "Sale_normalize_isbn (JStr ''978-0132350884'') = Inr ''9780132350884''"
  by (simp add: eval_simps char_of_eq_conv' del: fold_repo_normalize_isbn)

section \<open>Properties of the store and the repository\<close>

subsection \<open>What \<open>load\<close> and \<open>save\<close> accept and give\<close>

lemma validate_lenient:
  "validate_and_normalize (JObj d) True =
     (case (lenient (map_of d ''books''), lenient (map_of d ''sales'')) of
        (Some bs, Some ss) \<Rightarrow> Inr (JObj [(''books'', JList bs), (''sales'', JList ss)])
      | other \<Rightarrow> Inl StorageError)"
proof (cases "map_of d ''books''")
  case None
  then show ?thesis
    by (cases "map_of d ''sales''"; cases "the (map_of d ''sales'')")
       (simp_all add: get_default_def Let_def)
next
  case (Some b)
  then show ?thesis
    by (cases b; cases "map_of d ''sales''"; cases "the (map_of d ''sales'')")
       (simp_all add: get_default_def Let_def)
qed

lemma validate_strict:
  "validate_and_normalize (JObj d) False =
     (case (strict (map_of d ''books''), strict (map_of d ''sales'')) of
        (Some bs, Some ss) \<Rightarrow> Inr (JObj [(''books'', JList bs), (''sales'', JList ss)])
      | other \<Rightarrow> Inl StorageError)"
proof (cases "map_of d ''books''")
  case None
  then show ?thesis
    by (cases "map_of d ''sales''"; cases "the (map_of d ''sales'')")
       (simp_all add: get_default_def Let_def)
next
  case (Some b)
  then show ?thesis
    by (cases b; cases "map_of d ''sales''"; cases "the (map_of d ''sales'')")
       (simp_all add: get_default_def Let_def)
qed

lemma lenient_get_list: "lenient (map_of d k) = Some xs \<Longrightarrow> get_list (JObj d) k = xs"
  by (cases "map_of d k"; cases "the (map_of d k)") auto

lemma validate_Inr:
  assumes "validate_and_normalize data allow = Inr data'"
  shows "data' = JObj [(''books'', JList (get_list data ''books'')),
                       (''sales'', JList (get_list data ''sales''))]"
proof -
  obtain d where d: "data = JObj d" using assms by (cases data) auto
  have "validate_and_normalize (JObj d) True = Inr data'"
  proof (cases allow)
    case True then show ?thesis using assms d by simp
  next
    case False
    then have s: "validate_and_normalize (JObj d) False = Inr data'" using assms d by simp
    then obtain bs ss where "strict (map_of d ''books'') = Some bs" "strict (map_of d ''sales'') = Some ss"
      by (auto simp: validate_strict simp del: validate_and_normalize.simps
          split: option.splits)
    then have "lenient (map_of d ''books'') = Some bs" "lenient (map_of d ''sales'') = Some ss"
      by (cases "map_of d ''books''"; cases "the (map_of d ''books'')"; simp;
          cases "map_of d ''sales''"; cases "the (map_of d ''sales'')"; simp)+
    then show ?thesis using s \<open>strict (map_of d ''books'') = Some bs\<close> \<open>strict (map_of d ''sales'') = Some ss\<close>
      by (simp add: validate_strict validate_lenient del: validate_and_normalize.simps)
  qed
  then obtain bs ss where l: "lenient (map_of d ''books'') = Some bs"
      "lenient (map_of d ''sales'') = Some ss"
    and e: "data' = JObj [(''books'', JList bs), (''sales'', JList ss)]"
    by (auto simp: validate_lenient simp del: validate_and_normalize.simps split: option.splits)
  show ?thesis unfolding d e using lenient_get_list[OF l(1)] lenient_get_list[OF l(2)]
    by (simp del: get_list.simps)
qed

lemma validate_normal [simp]:
  "validate_and_normalize (JObj [(''books'', JList bs), (''sales'', JList ss)]) allow =
     Inr (JObj [(''books'', JList bs), (''sales'', JList ss)])"
  by (simp add: get_default_def Let_def)

lemma load_Inr:
  assumes "load f = (Inr data, f')"
  shows "data = JObj [(''books'', JList (stored_books f)), (''sales'', JList (stored_sales f))]
         \<and> f' = (case f of Absent \<Rightarrow> Content default_data | other \<Rightarrow> f)"
proof (cases f)
  case Absent
  then show ?thesis using assms by (auto simp: load_def default_data_def get_default_def Let_def)
next
  case Corrupt
  then show ?thesis using assms by (simp add: load_def)
next
  case (Content d)
  then show ?thesis using assms validate_Inr[of d True data] by (auto simp: load_def)
qed

lemma load_snd_sales [simp]: "stored_sales (snd (load f)) = stored_sales f"
  by (cases f) (simp_all add: load_def default_data_def)

lemma load_snd_books [simp]: "stored_books (snd (load f)) = stored_books f"
  by (cases f) (simp_all add: load_def default_data_def)

lemma load_idem [simp]: "load (snd (load f)) = load f"
  by (cases f) (simp_all add: load_def default_data_def)

lemma save_normal [simp]:
  "save (JObj [(''books'', JList bs), (''sales'', JList ss)]) f =
     (Inr (), Content (JObj [(''books'', JList bs), (''sales'', JList ss)]))"
  by (simp add: save_def del: validate_and_normalize.simps)

lemma load_Content_normal [simp]:
  "load (Content (JObj [(''books'', JList bs), (''sales'', JList ss)])) =
     (Inr (JObj [(''books'', JList bs), (''sales'', JList ss)]),
      Content (JObj [(''books'', JList bs), (''sales'', JList ss)]))"
  by (simp add: load_def del: validate_and_normalize.simps)

lemma setitem_books [simp]:
  "setitem (JObj [(''books'', b), (''sales'', s)]) ''books'' v = JObj [(''books'', v), (''sales'', s)]"
  by simp

lemma setitem_sales [simp]:
  "setitem (JObj [(''books'', b), (''sales'', s)]) ''sales'' v = JObj [(''books'', b), (''sales'', v)]"
  by simp

lemma save_books_cases:
  "save_books bs f =
     (case fst (load f) of
        Inl e \<Rightarrow> (Inl e, snd (load f))
      | Inr data \<Rightarrow>
          (Inr (), Content (JObj [(''books'', JList (map to_dict bs)),
                                  (''sales'', JList (stored_sales f))])))"
proof (cases "load f")
  case (Pair r f')
  show ?thesis
  proof (cases r)
    case (Inl e)
    then show ?thesis using Pair by (simp add: save_books_def)
  next
    case (Inr data)
    with Pair load_Inr[of f data f'] show ?thesis
      by (simp add: save_books_def del: setitem.simps)
  qed
qed

lemma save_books_sales [simp]: "stored_sales (snd (save_books bs f)) = stored_sales f"
  by (cases "fst (load f)") (simp_all add: save_books_cases)

lemma load_books_snd [simp]: "snd (load_books env f) = snd (load f)"
  by (cases "load f"; cases "fst (load f)") (auto simp: load_books_def)

lemma load_books_cases:
  "load_books env f =
     (case fst (load f) of
        Inl e \<Rightarrow> (Inl e, snd (load f))
      | Inr data \<Rightarrow> (decode_books env (stored_books f), snd (load f)))"
proof (cases "load f")
  case (Pair r f')
  show ?thesis
  proof (cases r)
    case (Inl e)
    then show ?thesis using Pair by (simp add: load_books_def)
  next
    case (Inr data)
    with Pair load_Inr[of f data f'] show ?thesis
      by (simp add: load_books_def)
  qed
qed

subsection \<open>The sales collection under each operation\<close>

lemma add_sales [simp]: "stored_sales (snd (add env b f)) = stored_sales f"
  by (simp add: add_def load_books_cases split: sum.splits)

lemma update_sales [simp]: "stored_sales (snd (update env b f)) = stored_sales f"
  by (simp add: update_def load_books_cases split: sum.splits option.splits)

lemma remove_sales [simp]: "stored_sales (snd (remove env i f)) = stored_sales f"
  by (simp add: remove_def load_books_cases split: sum.splits option.splits)

lemma archive_by_isbn_sales [simp]: "stored_sales (snd (archive_by_isbn env i f)) = stored_sales f"
  by (simp add: archive_by_isbn_def load_books_cases Let_def split: sum.splits option.splits)

lemma get_by_isbn_snd [simp]: "snd (get_by_isbn env i f) = snd (load f)"
  by (simp add: get_by_isbn_def load_books_cases Let_def split: sum.splits option.splits)

lemma case_pair_snd:
  "snd (case p of (Inl e, f') \<Rightarrow> h e f' | (Inr x, f') \<Rightarrow> g x f') =
     (case fst p of Inl e \<Rightarrow> snd (h e (snd p)) | Inr x \<Rightarrow> snd (g x (snd p)))"
  by (cases p; cases "fst p") auto

lemma modify_by_isbn_sales [simp]:
  "stored_sales (snd (modify_by_isbn e1 e2 i change f)) = stored_sales f"
  by (simp add: modify_by_isbn_def case_pair_snd split: sum.splits)

lemma add_book_sales [simp]:
  "stored_sales (snd (add_book e1 new e2 t a i p c n u f)) = stored_sales f"
  by (simp add: add_book_def case_pair_snd split: sum.splits)

lemma archive_if_empty_sales [simp]:
  "stored_sales (snd (archive_if_empty e1 e2 i f)) = stored_sales f"
  by (simp add: archive_if_empty_def case_pair_snd split: sum.splits)


lemma append_sale:
  "(case load f2 of
      (Inl e, f3) \<Rightarrow> (Inl e, f3)
    | (Inr data, f3) \<Rightarrow>
        (case save (setitem data ''sales'' (JList (get_list data ''sales'' @ [x]))) f3 of
           (Inl e, f4) \<Rightarrow> (Inl e, f4)
         | (Inr u', f4) \<Rightarrow> (Inr s, f4))) =
   (case fst (load f2) of
      Inl e \<Rightarrow> (Inl e, snd (load f2))
    | Inr data \<Rightarrow>
        (Inr s, Content (JObj [(''books'', JList (stored_books f2)),
                               (''sales'', JList (stored_sales f2 @ [x]))])))"
proof (cases "load f2")
  case (Pair r f3)
  show ?thesis
  proof (cases r)
    case (Inl e)
    then show ?thesis using Pair by simp
  next
    case (Inr data)
    with Pair load_Inr[of f2 data f3] show ?thesis by (simp del: setitem.simps)
  qed
qed

lemma sell_sales:
  "stored_sales (snd (sell e1 new e2 i n f)) = stored_sales f
   \<or> (\<exists>s. fst (sell e1 new e2 i n f) = Inr s
           \<and> stored_sales (snd (sell e1 new e2 i n f)) = stored_sales f @ [Sale_to_dict s])"
proof -
  obtain r1 f1 where g: "get_by_isbn e1 i f = (r1, f1)" by (cases "get_by_isbn e1 i f")
  have f1: "stored_sales f1 = stored_sales f" using get_by_isbn_snd[of e1 i f] g by simp
  show ?thesis
  proof (cases "n \<le> 0 \<or> isl r1")
    case True
    then show ?thesis using g f1 by (auto simp: sell_def isl_def)
  next
    case False
    then obtain b where b: "r1 = Inr b" and n: "\<not> n \<le> 0" by (cases r1) auto
    show ?thesis
    proof (cases "archived b \<or> quantity b < n")
      case True
      then show ?thesis using g f1 b n by (auto simp: sell_def)
    next
      case False
      note nf = this
      show ?thesis
      proof (cases "Sale_create new (ident b) (JStr (isbn b)) n (price_cents b) (JStr (currency b))")
        case (Inl e)
        then show ?thesis using g f1 b n nf by (auto simp: sell_def)
      next
        case (Inr s)
        show ?thesis
        proof (cases "decrease_stock b n")
          case (Inl e)
          then show ?thesis using g f1 b n nf Inr by (auto simp: sell_def)
        next
          case b': (Inr b')
          obtain r2 f2 where u: "update e2 b' f1 = (r2, f2)" by (cases "update e2 b' f1")
          have f2: "stored_sales f2 = stored_sales f" using update_sales[of e2 b' f1] u f1 by simp
          show ?thesis
          proof (cases r2)
            case (Inl e)
            then show ?thesis using g b n nf Inr b' u f2 by (auto simp: sell_def)
          next
            case r2: (Inr u')
            have "sell e1 new e2 i n f =
                (case fst (load f2) of
                   Inl e \<Rightarrow> (Inl e, snd (load f2))
                 | Inr data \<Rightarrow>
                     (Inr s, Content (JObj [(''books'', JList (stored_books f2)),
                        (''sales'', JList (stored_sales f2 @ [Sale_to_dict s]))])))"
              using g b n nf Inr b' u r2 by (simp add: sell_def append_sale)
            then show ?thesis using f2 by (cases "fst (load f2)") auto
          qed
        qed
      qed
    qed
  qed
qed

lemma load_Inr_books_nonempty:
  assumes "fst (load f) = Inr data" "stored_books f \<noteq> []"
  shows "snd (load f) = f"
  using assms by (cases f) (simp_all add: load_def)

lemma get_by_isbn_Inr:
  assumes "get_by_isbn env i f = (Inr b, f1)"
  shows "f1 = f \<and> isbn b = repo_normalize_isbn i"
proof -
  from assms obtain data bs where l: "fst (load f) = Inr data"
    and d: "decode_books env (stored_books f) = Inr bs"
    and fnd: "find (\<lambda>x. isbn x = repo_normalize_isbn i) bs = Some b"
    and f1: "f1 = snd (load f)"
    by (auto simp: get_by_isbn_def load_books_cases Let_def split: sum.splits option.splits)
  from fnd have "bs \<noteq> []" by auto
  with d have "stored_books f \<noteq> []" by auto
  with l f1 have "f1 = f" by (simp add: load_Inr_books_nonempty)
  moreover from fnd have "isbn b = repo_normalize_isbn i" by (auto simp: find_Some_iff)
  ultimately show ?thesis by simp
qed

subsection \<open>A file that holds encoded books\<close>

lemma decode_books_written:
  "list_all book_inv bs \<Longrightarrow> decode_books env (map to_dict bs) = Inr bs"
  by (induction bs arbitrary: env) (simp_all add: from_dict_to_dict)

lemma holds_stored:
  assumes "holds f bs ss"
  shows "stored_books f = map to_dict bs" "stored_sales f = ss"
proof -
  from assms have "load f = (Inr (JObj [(''books'', JList (map to_dict bs)), (''sales'', JList ss)]), snd (load f))"
    by (simp add: holds_def prod_eq_iff)
  from load_Inr[OF this] show "stored_books f = map to_dict bs" "stored_sales f = ss" by simp_all
qed

lemma holds_Content [simp]:
  "holds (Content (JObj [(''books'', JList (map to_dict bs)), (''sales'', JList ss)])) bs ss"
  by (simp add: holds_def)

lemma holds_snd_load [simp]: "holds (snd (load f)) bs ss = holds f bs ss"
  by (simp add: holds_def)

lemma holds_load_books:
  assumes "holds f bs ss" "list_all book_inv bs"
  shows "load_books env f = (Inr bs, snd (load f))"
  using assms holds_stored[OF assms(1)]
  by (simp add: load_books_cases holds_def decode_books_written)

lemma holds_save_books:
  assumes "holds f bs ss"
  shows "save_books bs' f =
     (Inr (), Content (JObj [(''books'', JList (map to_dict bs')), (''sales'', JList ss)]))"
  using assms holds_stored[OF assms] by (simp add: save_books_cases holds_def)

lemma holds_get_by_isbn:
  assumes "holds f bs ss" "list_all book_inv bs"
  shows "get_by_isbn env i f =
     (case find (\<lambda>x. isbn x = repo_normalize_isbn i) bs of
        Some b \<Rightarrow> Inr b
      | None \<Rightarrow> Inl (BookNotFoundError None (Some (repo_normalize_isbn i))), snd (load f))"
  using holds_load_books[OF assms, of env]
  by (simp add: get_by_isbn_def Let_def split: option.splits)

subsection \<open>Looking a book up by position\<close>

lemma first_index_Some:
  "first_index P xs = Some k \<longleftrightarrow> k < length xs \<and> P (xs ! k) \<and> (\<forall>j<k. \<not> P (xs ! j))"
proof (induction xs arbitrary: k)
  case Nil
  then show ?case by simp
next
  case (Cons x xs)
  show ?case
  proof (cases "P x")
    case True
    then show ?thesis by (cases k) auto
  next
    case False
    show ?thesis
    proof (cases k)
      case 0
      then show ?thesis using False by simp
    next
      case (Suc k')
      have "(\<forall>j<Suc k'. \<not> P ((x # xs) ! j)) \<longleftrightarrow> (\<forall>j<k'. \<not> P (xs ! j))"
        using False by (auto simp: less_Suc_eq_0_disj)
      then show ?thesis using False Suc Cons[of k'] by auto
    qed
  qed
qed

lemma find_first_index:
  "find P xs = Some x \<longleftrightarrow> (\<exists>k. first_index P xs = Some k \<and> xs ! k = x)"
  by (induction xs) (auto split: if_splits)

lemma find_None_first_index: "find P xs = None \<longleftrightarrow> first_index P xs = None"
  by (induction xs) auto

lemma find_update_first:
  assumes "first_index P xs = Some k" "P y"
  shows "find P (xs[k := y]) = Some y"
proof -
  from assms(1) have k: "k < length xs" "\<forall>j<k. \<not> P (xs ! j)" by (simp_all add: first_index_Some)
  have "first_index P (xs[k := y]) = Some k"
    using k assms(2) by (simp add: first_index_Some)
  then show ?thesis using k by (auto simp: find_first_index)
qed

lemma no_other_isbn:
  assumes "distinct (map g xs)" "k < length xs"
  shows "\<not> list_ex (\<lambda>(j, x). j \<noteq> k \<and> g x = g (xs ! k)) (enumerate 0 xs)"
proof
  assume "list_ex (\<lambda>(j, x). j \<noteq> k \<and> g x = g (xs ! k)) (enumerate 0 xs)"
  then obtain j where j: "j < length xs" "j \<noteq> k" "g (xs ! j) = g (xs ! k)"
    by (auto simp: list_ex_iff in_set_enumerate_eq)
  then have "map g xs ! j = map g xs ! k" using assms(2) by simp
  moreover have "j < length (map g xs)" "k < length (map g xs)" using j(1) assms(2) by simp_all
  ultimately have "j = k" using assms(1) nth_eq_iff_index_eq[of "map g xs" j k] by blast
  with j(2) show False by simp
qed

lemma py_eq_JStr [simp]: "py_eq x (JStr s) \<longleftrightarrow> x = JStr s"
  by (cases x) auto

lemma book_inv_archived: "book_inv b \<Longrightarrow> book_inv (b\<lparr>archived := a\<rparr>)"
  by (simp add: book_inv_def)

lemma book_inv_quantity: "book_inv b \<Longrightarrow> 0 \<le> q \<Longrightarrow> book_inv (b\<lparr>quantity := q\<rparr>)"
  by (simp add: book_inv_def)

lemma list_all_update: "list_all P xs \<Longrightarrow> P y \<Longrightarrow> list_all P (xs[k := y])"
  by (auto simp: list_all_iff dest: set_update_subset_insert[THEN subsetD])

subsection \<open>\<open>Sale.create\<close> on a stored book\<close>

lemma upper_char_digit_or_X:
  assumes "is_digit c \<or> c = CHR ''X''"
  shows "upper_char c = c" "c \<noteq> CHR ''-''" "\<not> isspace c"
proof -
  have "(of_char c :: nat) \<le> 57 \<or> (of_char c :: nat) = 88"
    using assms by (auto simp: is_digit_def Let_def)
  moreover have "48 \<le> (of_char c :: nat)" using assms by (auto simp: is_digit_def Let_def)
  ultimately show "upper_char c = c" "c \<noteq> CHR ''-''" "\<not> isspace c"
    by (auto simp: upper_char_def isspace_def Let_def)
qed

lemma isbn_shape_chars: "isbn_shape t \<Longrightarrow> list_all (\<lambda>c. is_digit c \<or> c = CHR ''X'') t"
proof -
  assume a: "isbn_shape t"
  show ?thesis
  proof (cases "length t = 13 \<and> list_all is_digit t")
    case True
    then show ?thesis by (auto simp: list_all_iff)
  next
    case False
    with a have l: "length t = 10" and d: "list_all is_digit (take 9 t)"
      and x: "is_digit (t ! 9) \<or> t ! 9 = CHR ''X''"
      by (auto simp: isbn_shape_def)
    have "take (Suc 9) t = take 9 t @ [t ! 9]" using l by (intro take_Suc_conv_app_nth) simp
    moreover have "take (Suc 9) t = t" using l by simp
    ultimately have "t = take 9 t @ [t ! 9]" by simp
    then have "list_all (\<lambda>c. is_digit c \<or> c = CHR ''X'') t = list_all (\<lambda>c. is_digit c \<or> c = CHR ''X'') (take 9 t @ [t ! 9])"
      by simp
    then show ?thesis using d x by (auto simp: list_all_iff)
  qed
qed

lemma clean_isbn_chars:
  "list_all (\<lambda>c. is_digit c \<or> c = CHR ''X'') t \<Longrightarrow>
   upper (filter (\<lambda>c. c \<noteq> CHR ''-'' \<and> \<not> isspace c) t) = t"
  by (induction t) (auto simp: upper_def upper_char_digit_or_X)

lemma no_line_feed:
  "list_all (\<lambda>c. is_digit c \<or> c = CHR ''X'') t \<Longrightarrow> filter (\<lambda>c. c \<noteq> CHR 0x0A) t = t"
  by (induction t) (auto simp: is_digit_def Let_def)

lemma Sale_normalize_isbn_stored:
  assumes "ISBN_RE_match t"
  shows "Sale_normalize_isbn (JStr t) = Inr (filter (\<lambda>c. c \<noteq> CHR 0x0A) t)"
proof (cases "isbn_shape t")
  case True
  then have "upper (filter (\<lambda>c. c \<noteq> CHR ''-'' \<and> \<not> isspace c) t) = t"
    by (intro clean_isbn_chars isbn_shape_chars)
  moreover have "filter (\<lambda>c. c \<noteq> CHR 0x0A) t = t"
    using True by (intro no_line_feed isbn_shape_chars)
  ultimately show ?thesis using assms by (simp add: Let_def)
next
  case False
  with assms have t: "t \<noteq> []" "last t = CHR 0x0A" "isbn_shape (butlast t)"
    by (auto simp: ISBN_RE_match_def)
  then have e: "t = butlast t @ [CHR 0x0A]" by (metis append_butlast_last_id)
  have "upper (filter (\<lambda>c. c \<noteq> CHR ''-'' \<and> \<not> isspace c) (butlast t)) = butlast t"
    using t(3) by (intro clean_isbn_chars isbn_shape_chars)
  moreover have "isspace (CHR 0x0A)" by (simp add: isspace_def)
  ultimately have u: "upper (filter (\<lambda>c. c \<noteq> CHR ''-'' \<and> \<not> isspace c) t) = butlast t"
    by (subst e) (simp add: upper_def)
  have "filter (\<lambda>c. c \<noteq> CHR 0x0A) (butlast t) = butlast t"
    using t(3) by (intro no_line_feed isbn_shape_chars)
  then have "filter (\<lambda>c. c \<noteq> CHR 0x0A) t = butlast t"
    by (subst e) simp
  then show ?thesis using t(3) u by (simp add: Let_def ISBN_RE_match_def)
qed

lemma Sale_create_stored:
  assumes "book_inv b" "ident b = JStr s" "strip s \<noteq> []" "0 < n"
  shows "Sale_create new (ident b) (JStr (isbn b)) n (price_cents b) (JStr (currency b)) =
     Inr \<lparr>sale_id = JStr (fst new), book_id = JStr (strip s),
          sale_isbn = JStr (filter (\<lambda>c. c \<noteq> CHR 0x0A) (isbn b)), qty = n,
          unit_price_cents = price_cents b, sale_currency = JStr (currency b),
          timestamp = snd new\<rparr>"
proof -
  have norm: "Sale_normalize_isbn (JStr (isbn b)) = Inr (filter (\<lambda>c. c \<noteq> CHR 0x0A) (isbn b))"
    using assms(1) by (intro Sale_normalize_isbn_stored) (simp add: book_inv_def)
  have c: "validate_currency (JStr (currency b)) = Inr (currency b)"
    using assms(1) by (auto simp: book_inv_def)
  show ?thesis using assms norm c
    by (simp add: Sale_create_def validate_positive_int_def validate_non_negative_int_def
        book_inv_def del: Sale_normalize_isbn.simps validate_currency.simps)
qed

subsection \<open>Every operation appends to the sales or leaves them\<close>

lemma run_appends:
  "\<exists>appended.
     stored_sales (run op f) = stored_sales f @ appended
     \<and> length appended \<le> (if is_Sell op then 1 else 0)"
proof (cases op)
  case (Sell e1 new e2 i n)
  then show ?thesis using sell_sales[of e1 new e2 i n f] by auto
qed (simp_all add: Inventory_set_price_def Inventory_set_quantity_def
      Inventory_increase_stock_def Inventory_decrease_stock_def)

subsection \<open>Files whose books decode\<close>

lemma decode_books_inv:
  assumes "decode_books env raw = Inr bs"
    and "\<And>i. valid_datetime (snd (env i)) \<and> fst (env i) \<noteq> []"
  shows "list_all book_inv bs"
  using assms
proof (induction raw arbitrary: env bs)
  case Nil
  then show ?case by simp
next
  case (Cons item rest)
  have e: "valid_datetime (snd ((env \<circ> Suc) i)) \<and> fst ((env \<circ> Suc) i) \<noteq> []" for i
    using Cons.prems(2)[of "Suc i"] by simp
  show ?case
  proof (cases "from_dict (env 0) item")
    case (Inl err)
    then have "decode_books (env \<circ> Suc) rest = Inr bs"
      using Cons.prems(1) by (simp split: if_splits)
    then show ?thesis using e by (rule Cons.IH)
  next
    case (Inr b)
    then obtain bs' where bs': "decode_books (env \<circ> Suc) rest = Inr bs'" "bs = b # bs'"
      using Cons.prems(1) by (auto simp: bind_eq_Inr)
    have "book_inv b" using Inr Cons.prems(2)[of 0] by (intro from_dict_inv[of "env 0" item]) simp_all
    moreover have "list_all book_inv bs'" using bs'(1) e by (rule Cons.IH)
    ultimately show ?thesis using bs'(2) by simp
  qed
qed

lemma load_books_Inr_load:
  assumes "fst (load_books env f) = Inr bs"
  shows "\<exists>data. fst (load f) = Inr data"
  using assms by (cases "fst (load f)") (simp_all add: load_books_cases)

lemma decoded_inv:
  assumes "\<And>env. fst (load_books env f) = Inr bs"
  shows "list_all book_inv bs"
proof -
  let ?env = "\<lambda>i::nat. (''0'', (1::nat, 1::nat, 1::nat, 0::nat, 0::nat, 0::nat, 0::nat))"
  have "fst (load_books ?env f) = Inr bs" by (rule assms)
  then have "decode_books ?env (stored_books f) = Inr bs"
    by (cases "fst (load f)") (simp_all add: load_books_cases)
  then show ?thesis by (rule decode_books_inv) (simp add: days_in_month_def)
qed

lemma decoded_load_books:
  assumes "\<And>env. fst (load_books env f) = Inr bs"
  shows "load_books env f = (Inr bs, snd (load f))"
    and "load_books env (snd (load f)) = (Inr bs, snd (load f))"
proof -
  show l: "load_books env f = (Inr bs, snd (load f))"
    using assms[of env] load_books_snd[of env f] by (simp add: prod_eq_iff)
  have "load_books env (snd (load f)) = (fst (load_books env f), snd (load f))"
    by (cases "fst (load f)") (simp_all add: load_books_cases)
  then show "load_books env (snd (load f)) = (Inr bs, snd (load f))" using l by simp
qed

lemma decoded_save_books:
  assumes "\<And>env. fst (load_books env f) = Inr bs"
  shows "save_books bs' (snd (load f)) =
     (Inr (), Content (JObj [(''books'', JList (map to_dict bs')),
                             (''sales'', JList (stored_sales f))]))"
proof -
  obtain data where "fst (load f) = Inr data" using load_books_Inr_load[OF assms[of undefined]] by blast
  then show ?thesis by (simp add: save_books_cases)
qed

lemma decoded_get_by_isbn:
  assumes "\<And>env. fst (load_books env f) = Inr bs"
  shows "get_by_isbn env i f =
     (case find (\<lambda>x. isbn x = repo_normalize_isbn i) bs of
        Some b \<Rightarrow> Inr b
      | None \<Rightarrow> Inl (BookNotFoundError None (Some (repo_normalize_isbn i))), snd (load f))"
  using decoded_load_books(1)[OF assms, of env]
  by (simp add: get_by_isbn_def Let_def split: option.splits)

lemma holds_decoded:
  assumes "holds f bs ss" "list_all book_inv bs"
  shows "fst (load_books env f) = Inr bs"
  using holds_load_books[OF assms, of env] by simp

lemma update_by_isbn:
  assumes "distinct (map isbn bs)" "k < length bs" "bs ! k = b"
  shows "bs[k := g b] = map (\<lambda>x. if isbn x = isbn b then g x else x) bs"
proof (rule nth_equalityI)
  show "length (bs[k := g b]) = length (map (\<lambda>x. if isbn x = isbn b then g x else x) bs)"
    by simp
next
  fix j assume "j < length (bs[k := g b])"
  then have j: "j < length bs" by simp
  show "bs[k := g b] ! j = map (\<lambda>x. if isbn x = isbn b then g x else x) bs ! j"
  proof (cases "j = k")
    case True
    then show ?thesis using assms(2,3) by simp
  next
    case False
    have "isbn (bs ! j) \<noteq> isbn b"
    proof
      assume "isbn (bs ! j) = isbn b"
      then have "map isbn bs ! j = map isbn bs ! k" using j assms(2,3) by simp
      then have "j = k" using assms(1) j assms(2) nth_eq_iff_index_eq[of "map isbn bs" j k] by simp
      with False show False by simp
    qed
    then show ?thesis using False j by simp
  qed
qed

section \<open>The example shop\<close>

lemma zfill_unfold: "0 < w \<Longrightarrow> zfill w n = zfill (w - 1) (n div 10) @ [digit_char (n mod 10)]"
  by (cases w) simp_all

lemma to_dict_clean_code_book: "to_dict clean_code_book = clean_code"
  by (simp add: to_dict_def clean_code_book_def clean_code_def zfill_unfold digit_char_def
      char_of_eq_conv)

lemma to_dict_ddd_book: "to_dict ddd_book = ddd"
  by (simp add: to_dict_def ddd_book_def ddd_def zfill_unfold digit_char_def char_of_eq_conv)

lemma book_inv_examples: "book_inv clean_code_book" "book_inv ddd_book"
  by (simp_all add: book_inv_def clean_code_book_def ddd_book_def eval_simps char_of_eq_conv'
      del: fold_repo_normalize_isbn)

lemma holds_shop: "holds shop [clean_code_book, ddd_book] [sale_3]"
proof -
  have "shop = Content (JObj [(''books'', JList (map to_dict [clean_code_book, ddd_book])),
                              (''sales'', JList [sale_3])])"
    by (simp add: shop_def to_dict_clean_code_book to_dict_ddd_book)
  moreover have "holds (Content (JObj [(''books'', JList (map to_dict [clean_code_book, ddd_book])),
                                       (''sales'', JList [sale_3])]))
      [clean_code_book, ddd_book] [sale_3]"
    by (rule holds_Content)
  ultimately show ?thesis by (simp only:)
qed

lemma normalize_example: "repo_normalize_isbn ''978-0321125217'' = ''9780321125217''"
  by (simp add: repo_normalize_isbn_def upper_def upper_char_def char_of_eq_conv'
      del: fold_repo_normalize_isbn)

lemma stored_sales_shop: "stored_sales shop = [sale_3]"
  using holds_stored[OF holds_shop] by simp

lemma isoformat_example: "isoformat (2024, 6, 1, 12, 0, 0, 0) = ''2024-06-01T12:00:00''"
  by (simp add: zfill_unfold digit_char_def char_of_eq_conv)

section \<open>The round trip of a book\<close>

text \<open>
  C9. For every \<open>Book\<close> that the constructor returns (the \<open>created_at\<close> it was given,
  or \<open>now()\<close>, being a datetime, and \<open>uuid4()\<close> not the empty string), decoding its
  encoded form gives the same record back: \<open>Book.from_dict(book.to_dict())\<close> has the same
  \<open>id\<close>, \<open>title\<close>, \<open>author\<close>, \<open>isbn\<close>, \<open>price_cents\<close> (no rounding), \<open>currency\<close>,
  \<open>quantity\<close>, \<open>archived\<close> and \<open>created_at\<close>, whatever \<open>uuid4()\<close> and \<open>now()\<close> give
  during the decoding.
\<close>

theorem book_round_trip:
  assumes "Book_init env t a i p c q bid arch created = Inr b"
    and "valid_datetime (case created of Some d \<Rightarrow> d | None \<Rightarrow> snd env)"
    and "fst env \<noteq> []"
  shows "from_dict env' (to_dict b) = Inr b"
  using Book_init_inv[OF assms] by (rule from_dict_to_dict)

theorem book_round_trip_witness:
  "Book_init (''3f2b'', (2024, 5, 6, 7, 8, 9, 0)) (JStr ''  Clean Code '') (JStr ''Robert C. Martin'')
     (JStr ''978-0132350884'') (Some (Finite (1234 / 100))) (JStr ''usd'') 5 JNull False None
   = Inr \<lparr>ident = JStr ''3f2b'', created_at = (2024, 5, 6, 7, 8, 9, 0), title = ''Clean Code'',
       author = ''Robert C. Martin'', isbn = ''9780132350884'', currency = ''USD'',
       price_cents = 1234, quantity = 5, archived = False\<rparr>
   \<and> from_dict (''other'', (1999, 1, 1, 0, 0, 0, 0))
        (to_dict \<lparr>ident = JStr ''3f2b'', created_at = (2024, 5, 6, 7, 8, 9, 0), title = ''Clean Code'',
       author = ''Robert C. Martin'', isbn = ''9780132350884'', currency = ''USD'',
       price_cents = 1234, quantity = 5, archived = False\<rparr>)
     = Inr \<lparr>ident = JStr ''3f2b'', created_at = (2024, 5, 6, 7, 8, 9, 0), title = ''Clean Code'',
       author = ''Robert C. Martin'', isbn = ''9780132350884'', currency = ''USD'',
       price_cents = 1234, quantity = 5, archived = False\<rparr>"
proof -
  have h: "Book_init (''3f2b'', (2024, 5, 6, 7, 8, 9, 0)) (JStr ''  Clean Code '') (JStr ''Robert C. Martin'')
     (JStr ''978-0132350884'') (Some (Finite (1234 / 100))) (JStr ''usd'') 5 JNull False None
   = Inr \<lparr>ident = JStr ''3f2b'', created_at = (2024, 5, 6, 7, 8, 9, 0), title = ''Clean Code'',
       author = ''Robert C. Martin'', isbn = ''9780132350884'', currency = ''USD'',
       price_cents = 1234, quantity = 5, archived = False\<rparr>"
    using to_cents_example by (simp add: eval_simps del: fold_repo_normalize_isbn)
  have v: "valid_datetime (case None of Some d \<Rightarrow> d
      | None \<Rightarrow> snd (''3f2b'', (2024 :: nat, 5 :: nat, 6 :: nat, 7 :: nat, 8 :: nat, 9 :: nat, 0 :: nat)))"
    by (simp add: days_in_month_def)
  have u: "fst (''3f2b'', (2024 :: nat, 5 :: nat, 6 :: nat, 7 :: nat, 8 :: nat, 9 :: nat, 0 :: nat)) \<noteq> []"
    by simp
  show ?thesis
    using book_round_trip[OF h v u, of "(''other'', (1999, 1, 1, 0, 0, 0, 0))"] h by simp
qed

section \<open>The shape the store accepts\<close>

text \<open>
  C5, as amended. For a parsed document: \<open>load\<close> takes a \<open>books\<close> or \<open>sales\<close> key that
  is absent, or present with the value null, for the empty list and succeeds; \<open>save\<close>
  fails with \<open>StorageError\<close> when either key is absent or null; both fail with
  \<open>StorageError\<close> when a field holds anything else that is not a list, and when the root
  is not an object. What \<open>load\<close> returns holds exactly the two lists.
\<close>

theorem store_shape:
  "fst (load (Content data)) =
     (case data of
        JObj d \<Rightarrow>
          (case (lenient (map_of d ''books''), lenient (map_of d ''sales'')) of
             (Some bs, Some ss) \<Rightarrow> Inr (JObj [(''books'', JList bs), (''sales'', JList ss)])
           | other \<Rightarrow> Inl StorageError)
      | other \<Rightarrow> Inl StorageError)
   \<and> fst (save data f) =
     (case data of
        JObj d \<Rightarrow>
          (case (strict (map_of d ''books''), strict (map_of d ''sales'')) of
             (Some bs, Some ss) \<Rightarrow> Inr ()
           | other \<Rightarrow> Inl StorageError)
      | other \<Rightarrow> Inl StorageError)"
proof (cases data)
  case (JObj d)
  show ?thesis unfolding JObj
    by (simp add: load_def save_def validate_lenient validate_strict
        del: validate_and_normalize.simps split: option.splits prod.splits)
qed (simp_all add: load_def save_def)

theorem store_shape_witness:
  "fst (load (Content (JObj [(''books'', JList [JInt 1])]))) =
     Inr (JObj [(''books'', JList [JInt 1]), (''sales'', JList [])])
   \<and> fst (save (JObj [(''books'', JList [JInt 1])]) Absent) = Inl StorageError"
  using store_shape[of "JObj [(''books'', JList [JInt 1])]" Absent] by simp

text \<open>
  The claim as stated has \<open>load\<close> fail on every present field that is not a list. A
  field that is present and null is not a list, and \<open>load\<close> succeeds on it.
\<close>

theorem load_null_field:
  "fst (load (Content (JObj [(''books'', JNull), (''sales'', JList [])]))) =
     Inr (JObj [(''books'', JList []), (''sales'', JList [])])"
  by (simp add: load_def get_default_def Let_def)

section \<open>\<open>update\<close> on a duplicate ISBN\<close>

text \<open>
  C3, at one input. The document holds the books \<open>a\<close> and \<open>b\<close>; \<open>update\<close> is given
  the book \<open>b\<close> with the ISBN of \<open>a\<close>. It leaves the file as it was, and the exception
  is the \<open>NameError\<close> of the misspelt \<open>DuplicateISBNErrror\<close>, not \<open>DuplicateISBNError\<close>.
\<close>

theorem update_duplicate_isbn:
  "update ex_env
     \<lparr>ident = JStr ''b'', created_at = (2024, 5, 6, 7, 8, 9, 0), title = ''Refactoring'',
       author = ''Fowler'', isbn = ''9780132350884'', currency = ''USD'', price_cents = 1100,
       quantity = 0, archived = True\<rparr> two_books
   = (Inl (NameError ''DuplicateISBNErrror''), two_books)"
  by (simp add: update_def load_books_two_books find_index_by_id_def enumerate_eq_zip upt_rec)

section \<open>Decoding the books\<close>

lemma results_Nil [simp]: "results env [] = []"
  by (simp add: results_def)

lemma results_Cons [simp]:
  "results env (item # rest) = from_dict (env 0) item # results (env \<circ> Suc) rest"
  by (simp add: results_def enumerate_Suc_eq comp_def case_prod_beta)

lemma decode_books_results:
  "decode_books env raw =
     (case find (\<lambda>e. \<not> is_ValidationError e) (map projl (filter isl (results env raw))) of
        None \<Rightarrow> Inr (map projr (filter (\<lambda>r. \<not> isl r) (results env raw)))
      | Some e \<Rightarrow> Inl e)"
proof (induction raw arbitrary: env)
  case Nil
  then show ?case by simp
next
  case (Cons item rest)
  show ?case
  proof (cases "from_dict (env 0) item")
    case (Inl e)
    then show ?thesis by (simp add: Cons comp_def split: option.splits)
  next
    case (Inr b)
    then show ?thesis by (simp add: Cons comp_def split: option.splits)
  qed
qed

text \<open>
  C4, as amended. A load of the books skips the records whose decoding raises
  \<open>ValidationError\<close>. When no record raises anything else, it returns exactly the
  records that decode, in the order of the document; otherwise it raises what the first
  such record raised (a missing key, a malformed timestamp, a price or quantity that is
  no integer), and nothing is returned. \<open>list_all\<close>, \<open>search\<close>, \<open>get_by_id\<close> and
  \<open>get_by_isbn\<close> read the books through this load.
\<close>

theorem lenient_decode:
  "fst (load_books env (Content data)) =
     (case fst (load (Content data)) of
        Inl e \<Rightarrow> Inl e
      | Inr d \<Rightarrow>
          (case find (\<lambda>e. \<not> is_ValidationError e)
                  (map projl (filter isl (results env (get_list d ''books'')))) of
             None \<Rightarrow> Inr (map projr (filter (\<lambda>r. \<not> isl r) (results env (get_list d ''books''))))
           | Some e \<Rightarrow> Inl e))"
  by (simp add: load_books_def decode_books_results split: prod.splits sum.splits)

theorem lenient_decode_witness:
  "fst (load_books ex_env
          (Content (JObj [(''books'', JList [bad_quantity, clean_code]), (''sales'', JList [])]))) =
     Inr [\<lparr>ident = JStr ''a'', created_at = (2024, 5, 6, 7, 8, 9, 0), title = ''Clean Code'',
            author = ''Martin'', isbn = ''9780132350884'', currency = ''USD'', price_cents = 1000,
            quantity = 2, archived = False\<rparr>]"
  using lenient_decode[of ex_env
      "JObj [(''books'', JList [bad_quantity, clean_code]), (''sales'', JList [])]"]
  by (simp add: load_def get_default_def Let_def from_dict_bad_quantity from_dict_clean_code)

text \<open>
  The claim as stated has the load never abort. A record with no \<open>title\<close> raises
  \<open>KeyError\<close>, which the loop does not catch.
\<close>

theorem missing_field_aborts_load:
  "fst (load_books ex_env
          (Content (JObj [(''books'', JList [clean_code, no_title]), (''sales'', JList [])]))) =
     Inl (KeyError ''title'')"
  by (simp add: load_books_def load_def get_default_def Let_def from_dict_clean_code
      from_dict_no_title)

section \<open>\<open>search\<close>\<close>

text \<open>
  The loop of \<open>search\<close> collects the matches in document order. It compares the number
  of results with the limit after it has appended a match, so it stops at \<open>limit\<close>
  results when \<open>limit\<close> is at least 1, and at one result when \<open>limit\<close> is 0 or less.
\<close>

lemma search_loop_take:
  "search_loop q limit bs acc =
     acc @ take (nat (max 1 (limit - int (length acc)))) (filter (matches q) bs)"
proof (induction bs arbitrary: acc)
  case Nil
  then show ?case by simp
next
  case (Cons b bs)
  show ?case
  proof (cases "matches q b")
    case False
    then show ?thesis by (simp add: Cons)
  next
    case True
    show ?thesis
    proof (cases "limit \<le> int (length acc) + 1")
      case True
      then have "nat (max 1 (limit - int (length acc))) = 1" by simp
      then show ?thesis using \<open>matches q b\<close> True by (simp add: Let_def)
    next
      case False
      define k where "k = nat (limit - int (length acc) - 1)"
      have k1: "nat (max 1 (limit - int (length (acc @ [b])))) = k"
        using False by (simp add: k_def max_def)
      have k2: "nat (max 1 (limit - int (length acc))) = Suc k"
        using False by (simp add: k_def max_def)
      have "search_loop q limit (b # bs) acc = search_loop q limit bs (acc @ [b])"
        using \<open>matches q b\<close> False by (simp add: Let_def)
      also have "\<dots> = (acc @ [b]) @ take k (filter (matches q) bs)"
        by (simp only: Cons k1)
      also have "\<dots> = acc @ take (Suc k) (filter (matches q) (b # bs))"
        using \<open>matches q b\<close> by simp
      finally show ?thesis by (simp only: k2)
    qed
  qed
qed

lemma search_capped:
  assumes "1 \<le> limit" "fst (list_all_books env include_archived f) = Inr books"
  shows "fst (search env query include_archived limit f) =
     Inr (if lower (strip query) = [] then []
          else sort_key (\<lambda>x. (lower (title x), lower (author x)))
                 (take (nat limit) (filter (matches (lower (strip query))) books)))"
proof -
  obtain r f' where l: "list_all_books env include_archived f = (r, f')"
    by (cases "list_all_books env include_archived f")
  with assms(2) have r: "r = Inr books" by simp
  show ?thesis using assms(1) by (simp add: search_def search_loop_take Let_def l r max_def)
qed

text \<open>
  C7, at one input. With \<open>limit = 0\<close> and one book that matches, \<open>search\<close> returns that
  book: one result, where the claim has at most \<open>limit\<close> results. (For a \<open>limit\<close> of at
  least 1, \<open>search_capped\<close> above is the claim: the empty list for a query that strips to
  nothing, else the first \<open>limit\<close> matches in document order, sorted by lower-cased title
  and author.)
\<close>

theorem search_limit_0:
  "fst (search ex_env ''code'' True 0 two_books) =
     Inr [\<lparr>ident = JStr ''a'', created_at = (2024, 5, 6, 7, 8, 9, 0), title = ''Clean Code'',
            author = ''Martin'', isbn = ''9780132350884'', currency = ''USD'', price_cents = 1000,
            quantity = 2, archived = False\<rparr>]"
  by (simp add: search_def list_all_books_def load_books_two_books matches_def Let_def
      strip_def isspace_def lower_def lower_char_def char_of_eq_conv char_of_eq_conv')

section \<open>\<open>list_sales\<close>\<close>

text \<open>
  C8. Let the store load, let every stored sale decode, and let \<open>chosen\<close> be the decoded
  sales, or those whose ISBN equals the normalized filter when a filter is given that is
  not blank and normalizes to an ISBN. Then \<open>list_sales\<close> returns a suffix of \<open>chosen\<close>
  sorted ascending by timestamp (so every entry it leaves out is no later than every
  entry it returns): the last \<open>N\<close> entries for a limit \<open>N > 0\<close> (all of them when there are
  fewer), and the whole sorted sequence when the limit is \<open>None\<close> or not positive.
\<close>

theorem list_sales_last_entries:
  assumes "fst (load f) = Inr data"
    and "decode_sales (get_list data ''sales'') = Inr sales"
    and "case i of
           None \<Rightarrow> chosen = sales
         | Some s \<Rightarrow>
             if strip s = [] then chosen = sales
             else (\<exists>norm. Sale_normalize_isbn (JStr s) = Inr norm
                    \<and> chosen = filter (\<lambda>x. py_eq (sale_isbn x) (JStr norm)) sales)"
  shows "\<exists>earlier result.
           fst (list_sales i limit f) = Inr result
         \<and> earlier @ result = sort_key timestamp chosen
         \<and> sorted (map timestamp (earlier @ result))
         \<and> length result =
             (case limit of
                None \<Rightarrow> length chosen
              | Some n \<Rightarrow> if 0 < n then min (nat n) (length chosen) else length chosen)"
proof -
  obtain f' where l: "load f = (Inr data, f')" using assms(1) by (cases "load f") auto
  have fl: "filter_by_isbn i sales = Inr chosen"
    using assms(3) by (auto simp: filter_by_isbn_def split: option.splits if_splits)
  let ?s = "sort_key timestamp chosen"
  have r: "fst (list_sales i limit f) = Inr (last_entries limit ?s)"
    by (simp add: list_sales_def l assms(2) fl)
  obtain k where k: "last_entries limit ?s = drop k ?s"
    "length ?s - k = (case limit of
                None \<Rightarrow> length chosen
              | Some n \<Rightarrow> if 0 < n then min (nat n) (length chosen) else length chosen)"
  proof (cases limit)
    case None
    show ?thesis by (rule that[of 0]) (simp_all add: last_entries_def None)
  next
    case (Some n)
    show ?thesis
    proof (cases "0 < n")
      case True
      show ?thesis
        by (rule that[of "length ?s - nat n"]) (use True in \<open>auto simp: last_entries_def Some\<close>)
    next
      case False
      show ?thesis by (rule that[of 0]) (use False in \<open>simp_all add: last_entries_def Some\<close>)
    qed
  qed
  have "take k ?s @ drop k ?s = ?s" by simp
  moreover have "sorted (map timestamp (take k ?s @ drop k ?s))" by simp
  moreover have "length (drop k ?s) = length ?s - k" by simp
  ultimately show ?thesis using r k by (metis (no_types, lifting))
qed

theorem list_sales_last_entries_witness:
  "fst (list_sales (Some ''978-0132350884'') (Some 1) three_sales) = Inr [sold_1]"
proof -
  have h1: "fst (load three_sales) =
      Inr (JObj [(''books'', JList []), (''sales'', JList [sale_1, sale_2, sale_3])])"
    by (simp add: three_sales_def load_def get_default_def Let_def)
  have h2: "decode_sales (get_list (JObj [(''books'', JList []),
        (''sales'', JList [sale_1, sale_2, sale_3])]) ''sales'') = Inr [sold_1, sold_2, sold_3]"
    by (simp add: Sale_from_dict_examples)
  have h3: "case Some ''978-0132350884'' of
           None \<Rightarrow> [sold_1, sold_3] = [sold_1, sold_2, sold_3]
         | Some s \<Rightarrow>
             if strip s = [] then [sold_1, sold_3] = [sold_1, sold_2, sold_3]
             else (\<exists>norm. Sale_normalize_isbn (JStr s) = Inr norm
                    \<and> [sold_1, sold_3] =
                       filter (\<lambda>x. py_eq (sale_isbn x) (JStr norm)) [sold_1, sold_2, sold_3])"
    by (simp add: Sale_normalize_isbn_example strip_def isspace_def sold_1_def sold_2_def
        sold_3_def del: Sale_normalize_isbn.simps)
  have s: "sort_key timestamp [sold_1, sold_3] = [sold_3, sold_1]"
    by (simp add: sold_1_def sold_3_def)
  from list_sales_last_entries[OF h1 h2 h3, of "Some 1", unfolded s]
  obtain earlier result where
    r: "fst (list_sales (Some ''978-0132350884'') (Some 1) three_sales) = Inr result"
    and e: "earlier @ result = [sold_3, sold_1]" and n: "length result = 1"
    by auto
  from e n have "result = [sold_1]"
    by (cases result; cases earlier; cases "tl earlier") auto
  with r show ?thesis by simp
qed

section \<open>The sales collection is append-only\<close>

text \<open>
  C6. Whatever the file holds, every operation that writes (\<open>add\<close>, \<open>update\<close>, \<open>remove\<close>,
  \<open>archive_by_isbn\<close>, \<open>sell\<close>, \<open>add_book\<close>, \<open>set_price\<close>, \<open>set_quantity\<close>,
  \<open>increase_stock\<close>, \<open>decrease_stock\<close>, \<open>archive_if_empty\<close>), whether it returns or
  raises, leaves a file whose sales collection is the old one with records appended at
  the end: none for every operation but \<open>sell\<close>, at most one for \<open>sell\<close>. So every sale
  record that was stored is still stored, at its place and unmodified.
\<close>

theorem sales_append_only:
  "\<exists>appended.
     stored_sales (run op f) = stored_sales f @ appended
     \<and> length appended \<le> (if is_Sell op then 1 else 0)"
  by (rule run_appends)

theorem sales_append_only_witness:
  "\<exists>appended.
     stored_sales (run (Sell ex_env (''s9'', (2024, 6, 1, 12, 0, 0, 0)) ex_env ''978-0132350884'' 1)
                    two_books)
       = stored_sales two_books @ appended
     \<and> length appended \<le> 1"
  using sales_append_only[of "Sell ex_env (''s9'', (2024, 6, 1, 12, 0, 0, 0)) ex_env ''978-0132350884'' 1"
      two_books]
  by simp

section \<open>\<open>sell\<close> with too little stock\<close>

text \<open>
  C2, as amended. For every stored book that is not archived (the book \<open>get_by_isbn\<close>
  finds for the ISBN) and every \<open>qty > 0\<close> greater than its quantity, \<open>sell\<close> raises
  \<open>OutOfStockError\<close> with the book's ISBN (the normalized ISBN of the call), the requested
  and the available quantity, and the file is what it was: the books and the sales are
  unchanged.
\<close>

theorem sell_out_of_stock:
  assumes "get_by_isbn env1 i f = (Inr b, f1)"
    and "\<not> archived b" and "0 < n" and "quantity b < n"
  shows "sell env1 new env2 i n f = (Inl (OutOfStockError (isbn b) n (quantity b)), f)
         \<and> isbn b = repo_normalize_isbn i"
  using assms get_by_isbn_Inr[OF assms(1)] by (simp add: sell_def)

theorem sell_out_of_stock_witness:
  "sell ex_env (''s9'', (2024, 6, 1, 12, 0, 0, 0)) ex_env ''978-0132350884'' 3 two_books =
     (Inl (OutOfStockError ''9780132350884'' 3 2), two_books)"
proof -
  have g: "get_by_isbn ex_env ''978-0132350884'' two_books =
      (Inr \<lparr>ident = JStr ''a'', created_at = (2024, 5, 6, 7, 8, 9, 0), title = ''Clean Code'',
             author = ''Martin'', isbn = ''9780132350884'', currency = ''USD'', price_cents = 1000,
             quantity = 2, archived = False\<rparr>, two_books)"
    by (simp add: get_by_isbn_def load_books_two_books repo_normalize_isbn_def upper_def
        upper_char_def char_of_eq_conv' del: fold_repo_normalize_isbn)
  show ?thesis
    using sell_out_of_stock[OF g, of 3 "(''s9'', (2024, 6, 1, 12, 0, 0, 0))" ex_env] by simp
qed

text \<open>
  The claim as stated covers every stored book. For an archived book the check of
  \<open>archived\<close> comes first and \<open>sell\<close> raises \<open>ValidationError\<close>: here the archived book
  has quantity 0 and one copy is asked for.
\<close>

theorem sell_archived_out_of_stock:
  "sell ex_env (''s9'', (2024, 6, 1, 12, 0, 0, 0)) ex_env ''9780201485677'' 1 two_books =
     (Inl (ValidationError ''book''), two_books)"
  by (simp add: sell_def get_by_isbn_def load_books_two_books repo_normalize_isbn_def upper_def
      upper_char_def char_of_eq_conv' del: fold_repo_normalize_isbn)

section \<open>\<open>archive_if_empty\<close> returns the copy it loaded\<close>

text \<open>
  C10. Let the books of the file decode to \<open>bs\<close> whatever \<open>uuid4()\<close> and \<open>now()\<close> would
  give (every record that decodes carries its own \<open>id\<close> and \<open>created_at\<close>), and let the
  book stored under the ISBN have quantity 0 and not be archived. Then \<open>archive_if_empty\<close>
  returns the book that \<open>get_by_isbn\<close> decoded before \<open>archive_by_isbn\<close> ran, with
  \<open>archived\<close> still false, while the record it leaves in the file is archived: a later
  \<open>get_by_isbn\<close> gives the same book with \<open>archived\<close> true.
\<close>

theorem archive_if_empty_returns_stale_copy:
  assumes "\<And>env. fst (load_books env f) = Inr bs"
    and "fst (get_by_isbn env1 i f) = Inr b" and "quantity b = 0" and "\<not> archived b"
  shows "\<exists>f'. archive_if_empty env1 env2 i f = (Inr b, f')
           \<and> archived b = False
           \<and> fst (get_by_isbn env3 i f') = Inr (b\<lparr>archived := True\<rparr>)"
proof -
  let ?norm = "repo_normalize_isbn i"
  let ?f1 = "snd (load f)"
  note inv = decoded_inv[OF assms(1)]
  have fnd: "find (\<lambda>x. isbn x = ?norm) bs = Some b"
    using assms(2) by (simp add: decoded_get_by_isbn[OF assms(1)] split: option.splits)
  then have g: "get_by_isbn env1 i f = (Inr b, ?f1)"
    by (simp add: decoded_get_by_isbn[OF assms(1)])
  from fnd obtain k where k: "first_index (\<lambda>x. isbn x = ?norm) bs = Some k" "bs ! k = b"
    by (auto simp: find_first_index)
  then have kl: "k < length bs" and bi: "isbn b = ?norm" by (auto simp: first_index_Some)
  let ?bs' = "bs[k := b\<lparr>archived := True\<rparr>]"
  let ?f2 = "Content (JObj [(''books'', JList (map to_dict ?bs')),
                            (''sales'', JList (stored_sales f))])"
  have a: "archive_by_isbn env2 i ?f1 = (Inr (), ?f2)"
    using decoded_load_books(2)[OF assms(1), of env2] k decoded_save_books[OF assms(1), of ?bs']
    by (simp add: archive_by_isbn_def find_index_by_isbn_def mark_archived_def Let_def)
  have r: "archive_if_empty env1 env2 i f = (Inr b, ?f2)"
    using g a assms(3) by (simp add: archive_if_empty_def)
  have "book_inv b" using inv kl k(2) by (auto simp: list_all_length)
  then have inv': "list_all book_inv ?bs'"
    using inv by (intro list_all_update book_inv_archived)
  have "find (\<lambda>x. isbn x = ?norm) ?bs' = Some (b\<lparr>archived := True\<rparr>)"
    using k(1) bi by (intro find_update_first) simp_all
  then have "fst (get_by_isbn env3 i ?f2) = Inr (b\<lparr>archived := True\<rparr>)"
    by (simp add: holds_get_by_isbn[OF holds_Content inv'])
  then show ?thesis using r assms(4) by simp
qed

theorem archive_if_empty_returns_stale_copy_witness:
  "\<exists>f'. archive_if_empty ex_env ex_env ''978-0321125217'' shop = (Inr ddd_book, f')
         \<and> archived ddd_book = False
         \<and> fst (get_by_isbn ex_env ''978-0321125217'' f') = Inr (ddd_book\<lparr>archived := True\<rparr>)"
proof -
  have inv: "list_all book_inv [clean_code_book, ddd_book]" by (simp add: book_inv_examples)
  have d: "fst (load_books env shop) = Inr [clean_code_book, ddd_book]" for env
    by (rule holds_decoded[OF holds_shop inv])
  have g: "fst (get_by_isbn ex_env ''978-0321125217'' shop) = Inr ddd_book"
    by (simp add: holds_get_by_isbn[OF holds_shop inv] normalize_example)
       (simp add: clean_code_book_def ddd_book_def)
  have q: "quantity ddd_book = 0" "\<not> archived ddd_book" by (simp_all add: ddd_book_def)
  show ?thesis
    by (rule archive_if_empty_returns_stale_copy[OF d g q])
qed

section \<open>\<open>sell\<close> from stock\<close>

text \<open>
  C1. Let the books of the file decode to \<open>bs\<close> whatever \<open>uuid4()\<close> and \<open>now()\<close> would
  give (every record that decodes carries its own \<open>id\<close> and \<open>created_at\<close>), with distinct
  ISBNs and distinct ids. For every stored book that is not archived (the book
  \<open>get_by_isbn\<close> finds for the ISBN, its id a string that is not blank) and every
  \<open>qty > 0\<close> that is at most its quantity, \<open>sell\<close> returns a sale of \<open>qty\<close> copies whose
  \<open>unit_price_cents\<close> is the book's \<open>price_cents\<close> at the call. The record it writes is
  the object with the new \<open>sale_id\<close>, the book's stripped id, the book's ISBN (less the
  line feed that \<open>$\<close> lets an ISBN end with), \<open>qty\<close>, the book's \<open>price_cents\<close> as
  \<open>unit_price_cents\<close>, the book's currency and the time of the sale; the stored sales are
  the old ones with exactly this record appended. The stored books are the encodings of
  \<open>bs\<close> with the quantity of the sold book less \<open>qty\<close> and nothing else changed, and
  \<open>get_by_isbn\<close> reads that book back. Whatever operation runs next (a change of the
  price among them), the sales collection still starts with the old records and this
  record.
\<close>

theorem sell_in_stock:
  assumes "\<And>env. fst (load_books env f) = Inr bs"
    and "distinct (map isbn bs)" and "distinct (map ident bs)"
    and "fst (get_by_isbn env1 i f) = Inr b"
    and "ident b = JStr s" and "strip s \<noteq> []"
    and "\<not> archived b" and "0 < n" and "n \<le> quantity b"
  shows "\<exists>sale f'.
           sell env1 new env2 i n f = (Inr sale, f')
         \<and> qty sale = n \<and> unit_price_cents sale = price_cents b
         \<and> Sale_to_dict sale = JObj
             [(''sale_id'', JStr (fst new)), (''book_id'', JStr (strip s)),
              (''isbn'', JStr (filter (\<lambda>c. c \<noteq> CHR 0x0A) (isbn b))), (''qty'', JInt n),
              (''unit_price_cents'', JInt (price_cents b)), (''currency'', JStr (currency b)),
              (''timestamp'', JStr (isoformat (snd new)))]
         \<and> stored_sales f' = stored_sales f @ [Sale_to_dict sale]
         \<and> stored_books f' =
             map (\<lambda>x. to_dict (if isbn x = isbn b then x\<lparr>quantity := quantity x - n\<rparr> else x)) bs
         \<and> fst (get_by_isbn env3 i f') = Inr (b\<lparr>quantity := quantity b - n\<rparr>)
         \<and> (\<forall>op. \<exists>later. stored_sales (run op f')
                = stored_sales f @ [Sale_to_dict sale] @ later)"
proof -
  let ?norm = "repo_normalize_isbn i"
  let ?f1 = "snd (load f)"
  let ?ss = "stored_sales f"
  let ?b' = "b\<lparr>quantity := quantity b - n\<rparr>"
  let ?sale = "\<lparr>sale_id = JStr (fst new), book_id = JStr (strip s),
          sale_isbn = JStr (filter (\<lambda>c. c \<noteq> CHR 0x0A) (isbn b)), qty = n,
          unit_price_cents = price_cents b, sale_currency = JStr (currency b),
          timestamp = snd new\<rparr>"
  note invs = decoded_inv[OF assms(1)]
  have fnd: "find (\<lambda>x. isbn x = ?norm) bs = Some b"
    using assms(4) by (simp add: decoded_get_by_isbn[OF assms(1)] split: option.splits)
  then have g: "get_by_isbn env1 i f = (Inr b, ?f1)"
    by (simp add: decoded_get_by_isbn[OF assms(1)])
  from fnd obtain k where k: "first_index (\<lambda>x. isbn x = ?norm) bs = Some k" "bs ! k = b"
    by (auto simp: find_first_index)
  then have kl: "k < length bs" and bi: "isbn b = ?norm" by (auto simp: first_index_Some)
  have inv: "book_inv b" using invs kl k(2) by (auto simp: list_all_length)
  have sale: "Sale_create new (ident b) (JStr (isbn b)) n (price_cents b)
        (JStr (currency b)) = Inr ?sale"
    by (rule Sale_create_stored[OF inv assms(5,6,8)])
  have rec: "Sale_to_dict ?sale = JObj
             [(''sale_id'', JStr (fst new)), (''book_id'', JStr (strip s)),
              (''isbn'', JStr (filter (\<lambda>c. c \<noteq> CHR 0x0A) (isbn b))), (''qty'', JInt n),
              (''unit_price_cents'', JInt (price_cents b)), (''currency'', JStr (currency b)),
              (''timestamp'', JStr (isoformat (snd new)))]"
    by (simp add: Sale_to_dict_def)
  have dec: "decrease_stock b n = Inr ?b'"
    using assms(8,9) by (simp add: decrease_stock_def validate_positive_int_def)
  have idx: "find_index_by_id bs (ident ?b') = Some k"
  proof -
    have "\<forall>j<k. ident (bs ! j) \<noteq> JStr s"
    proof (intro allI impI notI)
      fix j assume j: "j < k" "ident (bs ! j) = JStr s"
      then have "map ident bs ! j = map ident bs ! k" using kl k(2) assms(5) by simp
      moreover have "j < length (map ident bs)" "k < length (map ident bs)" using j(1) kl by simp_all
      ultimately have "j = k" using assms(3) nth_eq_iff_index_eq[of "map ident bs" j k] by blast
      with j(1) show False by simp
    qed
    then show ?thesis using kl k(2) assms(5)
      by (simp add: find_index_by_id_def first_index_Some)
  qed
  have nodup: "\<not> list_ex (\<lambda>(j, x). j \<noteq> k \<and> isbn x = isbn ?b') (enumerate 0 bs)"
    using no_other_isbn[OF assms(2) kl] k(2) by simp
  let ?bs' = "bs[k := ?b']"
  let ?f2 = "Content (JObj [(''books'', JList (map to_dict ?bs')), (''sales'', JList ?ss)])"
  let ?f3 = "Content (JObj [(''books'', JList (map to_dict ?bs')),
                            (''sales'', JList (?ss @ [Sale_to_dict ?sale]))])"
  have u: "update env2 ?b' ?f1 = (Inr (), ?f2)"
    using decoded_load_books(2)[OF assms(1), of env2] idx nodup
      decoded_save_books[OF assms(1), of ?bs']
    by (simp add: update_def)
  have r: "sell env1 new env2 i n f = (Inr ?sale, ?f3)"
    using g assms(7,8,9) sale dec u by (simp add: sell_def)
  have inv': "list_all book_inv ?bs'"
    using invs assms(9) inv by (intro list_all_update book_inv_quantity) simp_all
  have "?bs' = map (\<lambda>x. if isbn x = isbn b then x\<lparr>quantity := quantity x - n\<rparr> else x) bs"
    by (rule update_by_isbn[OF assms(2) kl k(2), of "\<lambda>x. x\<lparr>quantity := quantity x - n\<rparr>"])
  then have "map to_dict ?bs' =
      map (\<lambda>x. to_dict (if isbn x = isbn b then x\<lparr>quantity := quantity x - n\<rparr> else x)) bs"
    by (simp only: map_map comp_def)
  then have sb: "stored_books ?f3 =
      map (\<lambda>x. to_dict (if isbn x = isbn b then x\<lparr>quantity := quantity x - n\<rparr> else x)) bs"
    by simp
  have "find (\<lambda>x. isbn x = ?norm) ?bs' = Some ?b'"
    using k(1) bi by (intro find_update_first) simp_all
  then have gb: "fst (get_by_isbn env3 i ?f3) = Inr ?b'"
    by (simp add: holds_get_by_isbn[OF holds_Content inv'])
  have later: "\<exists>later. stored_sales (run op ?f3) = ?ss @ [Sale_to_dict ?sale] @ later" for op
    using run_appends[of op ?f3] by auto
  have ss: "stored_sales ?f3 = ?ss @ [Sale_to_dict ?sale]" by simp
  have q: "qty ?sale = n" "unit_price_cents ?sale = price_cents b" by simp_all
  show ?thesis
    apply (rule exI[of _ ?sale], rule exI[of _ ?f3])
    using r q rec ss sb gb later by blast
qed

theorem sell_in_stock_witness:
  "\<exists>sale f'.
     sell ex_env (''s9'', (2024, 6, 1, 12, 0, 0, 0)) ex_env ''978-0132350884'' 2 shop = (Inr sale, f')
     \<and> qty sale = 2 \<and> unit_price_cents sale = 1000
     \<and> stored_sales f' =
         [sale_3,
          JObj [(''sale_id'', JStr ''s9''), (''book_id'', JStr ''a''),
                (''isbn'', JStr ''9780132350884''), (''qty'', JInt 2),
                (''unit_price_cents'', JInt 1000), (''currency'', JStr ''USD''),
                (''timestamp'', JStr ''2024-06-01T12:00:00'')]]
     \<and> stored_books f' =
         [JObj [(''id'', JStr ''a''), (''title'', JStr ''Clean Code''), (''author'', JStr ''Martin''),
                (''isbn'', JStr ''9780132350884''), (''price_cents'', JInt 1000),
                (''currency'', JStr ''USD''), (''quantity'', JInt 0), (''archived'', JBool False),
                (''created_at'', JStr ''2024-05-06T07:08:09'')],
          ddd]
     \<and> fst (get_by_isbn ex_env ''978-0132350884'' f') = Inr (clean_code_book\<lparr>quantity := 0\<rparr>)
     \<and> (\<forall>op. \<exists>later. stored_sales (run op f') =
           [sale_3,
            JObj [(''sale_id'', JStr ''s9''), (''book_id'', JStr ''a''),
                  (''isbn'', JStr ''9780132350884''), (''qty'', JInt 2),
                  (''unit_price_cents'', JInt 1000), (''currency'', JStr ''USD''),
                  (''timestamp'', JStr ''2024-06-01T12:00:00'')]] @ later)"
proof -
  have inv: "list_all book_inv [clean_code_book, ddd_book]" by (simp add: book_inv_examples)
  have d: "fst (load_books env shop) = Inr [clean_code_book, ddd_book]" for env
    by (rule holds_decoded[OF holds_shop inv])
  have d1: "distinct (map isbn [clean_code_book, ddd_book])"
    by (simp add: clean_code_book_def ddd_book_def)
  have d2: "distinct (map ident [clean_code_book, ddd_book])"
    by (simp add: clean_code_book_def ddd_book_def)
  have n: "repo_normalize_isbn ''978-0132350884'' = ''9780132350884''"
    by (simp add: repo_normalize_isbn_def upper_def upper_char_def char_of_eq_conv'
        del: fold_repo_normalize_isbn)
  have g: "fst (get_by_isbn ex_env ''978-0132350884'' shop) = Inr clean_code_book"
    by (simp add: holds_get_by_isbn[OF holds_shop inv] n) (simp add: clean_code_book_def)
  have i: "ident clean_code_book = JStr ''a''" "strip ''a'' \<noteq> []"
    by (simp_all add: clean_code_book_def strip_def isspace_def)
  have q: "\<not> archived clean_code_book" "(0::int) < 2" "2 \<le> quantity clean_code_book"
    by (simp_all add: clean_code_book_def)
  have p: "price_cents clean_code_book = 1000" "quantity clean_code_book - 2 = 0"
    "currency clean_code_book = ''USD''" "strip ''a'' = ''a''"
    "filter (\<lambda>c. c \<noteq> CHR 0x0A) (isbn clean_code_book) = ''9780132350884''"
    by (simp_all add: clean_code_book_def strip_def isspace_def)
  have b: "map (\<lambda>x. to_dict (if isbn x = isbn clean_code_book
                               then x\<lparr>quantity := quantity x - 2\<rparr> else x))
             [clean_code_book, ddd_book] =
         [JObj [(''id'', JStr ''a''), (''title'', JStr ''Clean Code''), (''author'', JStr ''Martin''),
                (''isbn'', JStr ''9780132350884''), (''price_cents'', JInt 1000),
                (''currency'', JStr ''USD''), (''quantity'', JInt 0), (''archived'', JBool False),
                (''created_at'', JStr ''2024-05-06T07:08:09'')],
          ddd]"
    by (simp add: to_dict_ddd_book)
       (simp add: to_dict_def clean_code_book_def ddd_book_def zfill_unfold digit_char_def
          char_of_eq_conv)
  from sell_in_stock[OF d d1 d2 g i q, of "(''s9'', (2024, 6, 1, 12, 0, 0, 0))" ex_env ex_env]
  obtain sale f' where
    r: "sell ex_env (''s9'', (2024, 6, 1, 12, 0, 0, 0)) ex_env ''978-0132350884'' 2 shop
          = (Inr sale, f')"
    and f: "qty sale = 2" "unit_price_cents sale = price_cents clean_code_book"
    and rec: "Sale_to_dict sale = JObj
             [(''sale_id'', JStr (fst (''s9'', (2024 :: nat, 6 :: nat, 1 :: nat, 12 :: nat,
                 0 :: nat, 0 :: nat, 0 :: nat)))),
              (''book_id'', JStr (strip ''a'')),
              (''isbn'', JStr (filter (\<lambda>c. c \<noteq> CHR 0x0A) (isbn clean_code_book))),
              (''qty'', JInt 2),
              (''unit_price_cents'', JInt (price_cents clean_code_book)),
              (''currency'', JStr (currency clean_code_book)),
              (''timestamp'', JStr (isoformat (snd (''s9'', (2024 :: nat, 6 :: nat, 1 :: nat,
                 12 :: nat, 0 :: nat, 0 :: nat, 0 :: nat)))))]"
    and ss: "stored_sales f' = stored_sales shop @ [Sale_to_dict sale]"
    and sb: "stored_books f' =
             map (\<lambda>x. to_dict (if isbn x = isbn clean_code_book
                               then x\<lparr>quantity := quantity x - 2\<rparr> else x))
               [clean_code_book, ddd_book]"
    and gb: "fst (get_by_isbn ex_env ''978-0132350884'' f')
          = Inr (clean_code_book\<lparr>quantity := quantity clean_code_book - 2\<rparr>)"
    and later: "\<forall>op. \<exists>later. stored_sales (run op f')
                = stored_sales shop @ [Sale_to_dict sale] @ later"
    by blast
  have rec': "Sale_to_dict sale =
      JObj [(''sale_id'', JStr ''s9''), (''book_id'', JStr ''a''),
            (''isbn'', JStr ''9780132350884''), (''qty'', JInt 2),
            (''unit_price_cents'', JInt 1000), (''currency'', JStr ''USD''),
            (''timestamp'', JStr ''2024-06-01T12:00:00'')]"
    using rec by (simp only: p fst_conv snd_conv isoformat_example)
  have sb': "stored_books f' =
         [JObj [(''id'', JStr ''a''), (''title'', JStr ''Clean Code''), (''author'', JStr ''Martin''),
                (''isbn'', JStr ''9780132350884''), (''price_cents'', JInt 1000),
                (''currency'', JStr ''USD''), (''quantity'', JInt 0), (''archived'', JBool False),
                (''created_at'', JStr ''2024-05-06T07:08:09'')],
          ddd]"
    using sb by (simp only: b)
  show ?thesis
    apply (rule exI[of _ sale], rule exI[of _ f'])
    using r f ss sb' gb later by (simp add: p rec' stored_sales_shop)
qed

end
